theory Spec2Isabelle
  imports Complex_Main "HOL-Library.Multiset"
begin

section \<open>Level-of-traffic-stress classification of OSM edges (lts_functions.py)\<close>

text \<open>
  The development embeds the functions of \<^verbatim>\<open>lts_functions.py\<close> and the parts of
  Python, NumPy and pandas they call.

  Conventions of the embedding:
  \<^item> A Python string is a \<open>string\<close>; a character stands for a code point below 256.
  \<^item> A Python float is the exact rational it denotes, or one of \<open>inf\<close>, \<open>-inf\<close>, \<open>nan\<close>:
    rounding to binary64 and overflow to infinity are not part of the model.
  \<^item> A raised exception is the \<open>Inl\<close> of a sum; a returned value is the \<open>Inr\<close>.
  \<^item> Lines 271 and 272 of the file are two lines of prose without the comment sign, so the
    module as it stands is rejected by the Python parser. Each function is embedded as its own
    text reads; in \<open>get_max_speed_us\<close> the two lines are taken as the comment they repeat.
\<close>

subsection \<open>Python values\<close>

datatype pyfloat = Fin rat | PInf | NInf | NaN

text \<open>
  The value of a cell of an edge table: a tag text, a number, the missing-value marker
  (\<open>FltV NaN\<close>, or \<open>None\<close>), or the list of texts that a merged edge carries for a tag.
\<close>

datatype pyval = StrV string | IntV int | FltV pyfloat | NoneV | LstV "string list"

datatype error =
    KeyError string
  | ValueError
  | TypeError
  | NameError string
  | IndexError
  | OverflowError

type_synonym 'a res = "error + 'a"

definition bind :: "'a res \<Rightarrow> ('a \<Rightarrow> 'b res) \<Rightarrow> 'b res" where
  "bind m f = (case m of Inl e \<Rightarrow> Inl e | Inr x \<Rightarrow> f x)"

text \<open>Applying a function that may raise to each element in turn: the first failure is raised.\<close>

fun mapM :: "('a \<Rightarrow> 'b res) \<Rightarrow> 'a list \<Rightarrow> 'b list res" where
  "mapM f [] = Inr []"
| "mapM f (x # xs) =
     (case f x of
        Inl e \<Rightarrow> Inl e
      | Inr y \<Rightarrow> (case mapM f xs of Inl e \<Rightarrow> Inl e | Inr ys \<Rightarrow> Inr (y # ys)))"

subsection \<open>Python's string operations\<close>

text \<open>\<open>str.isspace\<close> on the code points below 256: what \<open>str.split()\<close> splits at.\<close>

definition py_isspace :: "char \<Rightarrow> bool" where
  "py_isspace c \<longleftrightarrow>
     c \<in> set [CHR 0x09, CHR 0x0A, CHR 0x0B, CHR 0x0C, CHR 0x0D, CHR 0x1C, CHR 0x1D, CHR 0x1E,
               CHR 0x1F, CHR 0x20, CHR 0x85, CHR 0xA0]"

text \<open>
  The white space that \<open>float()\<close> and \<open>int()\<close> strip from both ends of their argument: the
  separators \<open>0x1C\<close> to \<open>0x1F\<close> are not among it.
\<close>

definition py_numspace :: "char \<Rightarrow> bool" where
  "py_numspace c \<longleftrightarrow>
     c \<in> set [CHR 0x09, CHR 0x0A, CHR 0x0B, CHR 0x0C, CHR 0x0D, CHR 0x20, CHR 0x85, CHR 0xA0]"

definition strip_numspace :: "string \<Rightarrow> string" where
  "strip_numspace s = rev (dropWhile py_numspace (rev (dropWhile py_numspace s)))"

text \<open>\<open>s.split()\<close>: the maximal runs of characters that are not white space.\<close>

fun split_acc :: "string \<Rightarrow> string \<Rightarrow> string list" where
  "split_acc cur [] = (if cur = [] then [] else [cur])"
| "split_acc cur (c # cs) =
     (if py_isspace c then (if cur = [] then split_acc [] cs else cur # split_acc [] cs)
      else split_acc (cur @ [c]) cs)"

definition py_split :: "string \<Rightarrow> string list" where
  "py_split s = split_acc [] s"

fun starts_with :: "string \<Rightarrow> string \<Rightarrow> bool" where
  "starts_with [] s = True"
| "starts_with (p # ps) [] = False"
| "starts_with (p # ps) (c # cs) = (p = c \<and> starts_with ps cs)"

text \<open>\<open>sub in s\<close> for two strings.\<close>

fun py_in :: "string \<Rightarrow> string \<Rightarrow> bool" where
  "py_in sub [] = (sub = [])"
| "py_in sub (c # cs) = (starts_with sub (c # cs) \<or> py_in sub cs)"

definition digit_val :: "char \<Rightarrow> nat option" where
  "digit_val c = map_of (zip ''0123456789'' [0, 1, 2, 3, 4, 5, 6, 7, 8, 9]) c"

definition is_digit :: "char \<Rightarrow> bool" where
  "is_digit c \<longleftrightarrow> digit_val c \<noteq> None"

definition nat_of_digits :: "string \<Rightarrow> nat" where
  "nat_of_digits ds = foldl (\<lambda>acc d. 10 * acc + (case digit_val d of Some v \<Rightarrow> v | None \<Rightarrow> 0)) 0 ds"

definition lower_ascii :: "char \<Rightarrow> char" where
  "lower_ascii c =
     (case map_of (zip ''ABCDEFGHIJKLMNOPQRSTUVWXYZ'' ''abcdefghijklmnopqrstuvwxyz'') c of
        Some l \<Rightarrow> l
      | None \<Rightarrow> c)"

text \<open>
  The digits that follow a first digit in a \<open>digitpart\<close> of Python's numeric grammar,
  \<open>digit (["_"] digit)*\<close>: the digits read, and the rest of the text.
\<close>

fun digits_tail :: "string \<Rightarrow> string \<times> string" where
  "digits_tail [] = ([], [])"
| "digits_tail [c] = (if is_digit c then ([c], []) else ([], [c]))"
| "digits_tail (c # d # cs) =
     (if is_digit c then (case digits_tail (d # cs) of (ds, r) \<Rightarrow> (c # ds, r))
      else if c = CHR ''_'' \<and> is_digit d then (case digits_tail cs of (ds, r) \<Rightarrow> (d # ds, r))
      else ([], c # d # cs))"

definition digitpart :: "string \<Rightarrow> (string \<times> string) option" where
  "digitpart s =
     (case s of
        [] \<Rightarrow> None
      | c # cs \<Rightarrow> if is_digit c then (case digits_tail cs of (ds, r) \<Rightarrow> Some (c # ds, r)) else None)"

text \<open>An optional sign: whether it is a minus, and the text after it.\<close>

definition take_sign :: "string \<Rightarrow> bool \<times> string" where
  "take_sign s =
     (case s of
        [] \<Rightarrow> (False, [])
      | c # cs \<Rightarrow> if c = CHR ''-'' then (True, cs) else if c = CHR ''+'' then (False, cs) else (False, s))"

text \<open>
  The mantissa \<open>ds1.ds2\<close> followed by the text \<open>r\<close>, which must be empty or an exponent
  \<open>("e" | "E") [sign] digitpart\<close>.
\<close>

definition with_exponent :: "string \<Rightarrow> string \<Rightarrow> string \<Rightarrow> rat option" where
  "with_exponent ds1 ds2 r =
     (let m = of_nat (nat_of_digits ds1) + of_nat (nat_of_digits ds2) / 10 ^ length ds2 in
      case r of
        [] \<Rightarrow> Some m
      | e # r' \<Rightarrow>
          if e = CHR ''e'' \<or> e = CHR ''E'' then
            (case take_sign r' of
               (neg, r'') \<Rightarrow>
                 (case digitpart r'' of
                    Some (ds3, []) \<Rightarrow>
                      Some (if neg then m / 10 ^ nat_of_digits ds3 else m * 10 ^ nat_of_digits ds3)
                  | _ \<Rightarrow> None))
          else None)"

text \<open>\<open>floatnumber\<close>: \<open>([digitpart] "." digitpart | digitpart ["."]) [exponent]\<close>.\<close>

definition float_number :: "string \<Rightarrow> rat option" where
  "float_number u =
     (case digitpart u of
        Some (ds1, r1) \<Rightarrow>
          (case r1 of
             [] \<Rightarrow> with_exponent ds1 [] []
           | c # r2 \<Rightarrow>
               if c = CHR ''.'' then
                 (case digitpart r2 of
                    Some (ds2, r3) \<Rightarrow> with_exponent ds1 ds2 r3
                  | None \<Rightarrow> with_exponent ds1 [] r2)
               else with_exponent ds1 [] r1)
      | None \<Rightarrow>
          (case u of
             [] \<Rightarrow> None
           | c # r2 \<Rightarrow>
               if c = CHR ''.'' then
                 (case digitpart r2 of
                    Some (ds2, r3) \<Rightarrow> with_exponent [] ds2 r3
                  | None \<Rightarrow> None)
               else None))"

text \<open>
  \<open>float(s)\<close> for a string: \<open>None\<close> stands for the \<open>ValueError\<close> that Python raises. The
  argument is stripped of white space; a sign may come first; \<open>inf\<close>, \<open>infinity\<close> and \<open>nan\<close>
  are read in any letter case.
\<close>

definition py_float :: "string \<Rightarrow> pyfloat option" where
  "py_float s =
     (case take_sign (strip_numspace s) of
        (neg, u) \<Rightarrow>
          (let lu = map lower_ascii u in
           if lu = ''inf'' \<or> lu = ''infinity'' then Some (if neg then NInf else PInf)
           else if lu = ''nan'' then Some NaN
           else map_option (\<lambda>q. Fin (if neg then - q else q)) (float_number u)))"

text \<open>\<open>int(s)\<close> for a string, base 10: \<open>[sign] digitpart\<close> between white space.\<close>

definition py_int :: "string \<Rightarrow> int option" where
  "py_int s =
     (case take_sign (strip_numspace s) of
        (neg, u) \<Rightarrow>
          (case digitpart u of
             Some (ds, []) \<Rightarrow> Some (if neg then - int (nat_of_digits ds) else int (nat_of_digits ds))
           | _ \<Rightarrow> None))"

subsection \<open>Unit conversion and the speed parser\<close>

text \<open>\<open>knots * 1.15078\<close> on a float.\<close>

definition float_times :: "pyfloat \<Rightarrow> rat \<Rightarrow> pyfloat" where
  "float_times x q =
     (case x of
        Fin r \<Rightarrow> Fin (r * q)
      | PInf \<Rightarrow> (if q > 0 then PInf else if q < 0 then NInf else NaN)
      | NInf \<Rightarrow> (if q > 0 then NInf else if q < 0 then PInf else NaN)
      | NaN \<Rightarrow> NaN)"

definition knots_to_mph :: "pyfloat \<Rightarrow> pyfloat" where
  "knots_to_mph knots = float_times knots 1.15078"

text \<open>
  \<open>np.isnan(x)\<close> used as the condition of an \<open>if\<close>. NumPy accepts a Python integer that fits
  64 bits; \<open>None\<close>, a larger integer and a list of texts are a \<open>TypeError\<close>; the empty list
  gives an empty array, which counts as false (NumPy 1.x).
\<close>

definition np_isnan :: "pyval \<Rightarrow> bool res" where
  "np_isnan x =
     (case x of
        FltV f \<Rightarrow> Inr (f = NaN)
      | IntV i \<Rightarrow> (if - (2 ^ 63) \<le> i \<and> i < 2 ^ 64 then Inr False else Inl TypeError)
      | StrV s \<Rightarrow> Inl TypeError
      | NoneV \<Rightarrow> Inl TypeError
      | LstV ss \<Rightarrow> (if ss = [] then Inr False else Inl TypeError))"

definition float_of_str :: "string \<Rightarrow> pyfloat res" where
  "float_of_str s = (case py_float s of None \<Rightarrow> Inl ValueError | Some f \<Rightarrow> Inr f)"

text \<open>\<open>s.split()[0]\<close>.\<close>

definition first_token :: "string \<Rightarrow> string res" where
  "first_token s = (case py_split s of [] \<Rightarrow> Inl IndexError | t # ts \<Rightarrow> Inr t)"

text \<open>
  \<open>parse_speed\<close>, lines 154 to 185. A function body that ends without a \<open>return\<close> returns
  \<open>None\<close>.
\<close>

definition parse_speed :: "pyval \<Rightarrow> pyval res" where
  "parse_speed speed_string =
     (case speed_string of
        StrV s \<Rightarrow>
          if py_in ''mph'' s then
            bind (first_token s) (\<lambda>t. bind (float_of_str t) (\<lambda>f. Inr (FltV f)))
          else if py_in ''knots'' s then
            bind (first_token s) (\<lambda>t. bind (float_of_str t) (\<lambda>f. Inr (FltV (knots_to_mph f))))
          else bind (float_of_str s) (\<lambda>f. Inr (FltV f))
      | _ \<Rightarrow>
          bind (np_isnan speed_string) (\<lambda>b. if b then Inr (FltV NaN) else Inr NoneV))"

subsection \<open>Edge tables\<close>

text \<open>
  A pandas table: the column names in order, and the rows in order, each with its index label.
  A row that holds no value for a column reads as the missing-value marker there. The columns
  are named by texts, as the tags of an edge are; a table built with no column at all has
  numbered columns in pandas, on which \<open>columns.str\<close> raises, and is not a table of edges.
\<close>

type_synonym row = "string \<rightharpoonup> pyval"

record frame =
  columns :: "string list"
  rows :: "(nat \<times> row) list"

definition cell :: "row \<Rightarrow> string \<Rightarrow> pyval" where
  "cell r c = (case r c of Some v \<Rightarrow> v | None \<Rightarrow> FltV NaN)"

text \<open>\<open>df[c]\<close>: the column as a series, or \<open>KeyError\<close>.\<close>

definition col :: "frame \<Rightarrow> string \<Rightarrow> pyval list res" where
  "col df c =
     (if c \<in> set (columns df) then Inr (map (\<lambda>(i, r). cell r c) (rows df)) else Inl (KeyError c))"

text \<open>\<open>df[c] = vs\<close>: the column is overwritten, or appended when it is new.\<close>

definition set_col :: "frame \<Rightarrow> string \<Rightarrow> pyval list \<Rightarrow> frame" where
  "set_col df c vs =
     \<lparr>columns = (if c \<in> set (columns df) then columns df else columns df @ [c]),
      rows = map2 (\<lambda>(i, r) v. (i, r(c \<mapsto> v))) (rows df) vs\<rparr>"

text \<open>\<open>df[mask]\<close> for a boolean series over the rows of \<open>df\<close>.\<close>

definition select_rows :: "frame \<Rightarrow> bool list \<Rightarrow> frame" where
  "select_rows df keep = \<lparr>columns = columns df, rows = map fst (filter snd (zip (rows df) keep))\<rparr>"

text \<open>\<open>df.drop(columns = c)\<close>.\<close>

definition drop_col :: "frame \<Rightarrow> string \<Rightarrow> frame res" where
  "drop_col df c =
     (if c \<in> set (columns df)
      then Inr \<lparr>columns = removeAll c (columns df), rows = map (\<lambda>(i, r). (i, r(c := None))) (rows df)\<rparr>
      else Inl (KeyError c))"

text \<open>\<open>df[tags]\<close> as the two-dimensional array of its values, row by row.\<close>

definition sub_cells :: "frame \<Rightarrow> string list \<Rightarrow> pyval list list" where
  "sub_cells df tags = map (\<lambda>(i, r). map (cell r) tags) (rows df)"

text \<open>\<open>df.columns[df.columns.str.contains(sub)]\<close>.\<close>

definition columns_containing :: "frame \<Rightarrow> string \<Rightarrow> string list" where
  "columns_containing df sub = filter (py_in sub) (columns df)"

subsection \<open>Element-wise operations of pandas and NumPy\<close>

text \<open>
  \<open>series == s\<close> and \<open>series != s\<close> for a text \<open>s\<close>: a missing value, a number and a list
  are all different from a text.
\<close>

definition series_eq :: "pyval list \<Rightarrow> string \<Rightarrow> bool list" where
  "series_eq vs s = map (\<lambda>v. v = StrV s) vs"

definition series_ne :: "pyval list \<Rightarrow> string \<Rightarrow> bool list" where
  "series_ne vs s = map (\<lambda>v. v \<noteq> StrV s) vs"

definition frame_eq :: "pyval list list \<Rightarrow> string \<Rightarrow> bool list list" where
  "frame_eq m s = map (\<lambda>vs. series_eq vs s) m"

definition is_missing :: "pyval \<Rightarrow> bool" where
  "is_missing v \<longleftrightarrow> v = FltV NaN \<or> v = NoneV"

definition isna :: "pyval list \<Rightarrow> bool list" where
  "isna vs = map is_missing vs"

definition fillna :: "pyval list \<Rightarrow> pyval \<Rightarrow> pyval list" where
  "fillna vs d = map (\<lambda>v. if is_missing v then d else v) vs"

definition band :: "bool list \<Rightarrow> bool list \<Rightarrow> bool list" where
  "band xs ys = map2 (\<and>) xs ys"

definition bor :: "bool list \<Rightarrow> bool list \<Rightarrow> bool list" where
  "bor xs ys = map2 (\<or>) xs ys"

definition bnot :: "bool list \<Rightarrow> bool list" where
  "bnot xs = map Not xs"

text \<open>\<open>np.any(m, axis = 1)\<close>: one truth value for each row.\<close>

definition np_any_axis1 :: "bool list list \<Rightarrow> bool list" where
  "np_any_axis1 m = map (list_ex id) m"

text \<open>
  \<open>DataFrame.isin\<close> looks each cell up in a hash table of the identifiers. A cell that
  cannot be hashed, the list of a multi-valued tag, is not found there: pandas clears the
  error of the hash and the lookup fails, so that the cell counts as holding none of the
  identifiers and \<open>isin\<close> never raises.
\<close>

definition isin_val :: "pyval \<Rightarrow> string list \<Rightarrow> bool res" where
  "isin_val v idents =
     (case v of
        StrV s \<Rightarrow> Inr (s \<in> set idents)
      | LstV ss \<Rightarrow> Inr False
      | _ \<Rightarrow> Inr False)"

definition frame_isin :: "pyval list list \<Rightarrow> string list \<Rightarrow> bool list list res" where
  "frame_isin m idents = mapM (mapM (\<lambda>v. isin_val v idents)) m"

text \<open>
  \<open>np.select(condlist, choicelist, default)\<close>: at each position the choice of the first
  condition that holds there, and the default where none holds. The lists of conditions and of
  choices must be equally long.
\<close>

fun np_select :: "bool list list \<Rightarrow> 'a list \<Rightarrow> 'a list \<Rightarrow> 'a list res" where
  "np_select [] [] d = Inr d"
| "np_select (c # cs) (v # vs) d =
     (case np_select cs vs d of
        Inl e \<Rightarrow> Inl e
      | Inr rest \<Rightarrow> Inr (map2 (\<lambda>b r. if b then v else r) c rest))"
| "np_select [] (v # vs) d = Inl ValueError"
| "np_select (c # cs) [] d = Inl ValueError"

text \<open>Order comparisons of a series with a number.\<close>

datatype cmp = LE | LT | GE | GT

definition cmp_rat :: "cmp \<Rightarrow> rat \<Rightarrow> rat \<Rightarrow> bool" where
  "cmp_rat op x y = (case op of LE \<Rightarrow> x \<le> y | LT \<Rightarrow> x < y | GE \<Rightarrow> x \<ge> y | GT \<Rightarrow> x > y)"

text \<open>
  A missing value compares false; a text or a list against a number is a \<open>TypeError\<close>.
\<close>

definition cell_cmp :: "cmp \<Rightarrow> pyval \<Rightarrow> rat \<Rightarrow> bool res" where
  "cell_cmp op v q =
     (case v of
        IntV i \<Rightarrow> Inr (cmp_rat op (of_int i) q)
      | FltV f \<Rightarrow>
          (case f of
             Fin r \<Rightarrow> Inr (cmp_rat op r q)
           | PInf \<Rightarrow> Inr (op = GE \<or> op = GT)
           | NInf \<Rightarrow> Inr (op = LE \<or> op = LT)
           | NaN \<Rightarrow> Inr False)
      | NoneV \<Rightarrow> Inr False
      | StrV s \<Rightarrow> Inl TypeError
      | LstV ss \<Rightarrow> Inl TypeError)"

definition series_cmp :: "cmp \<Rightarrow> pyval list \<Rightarrow> rat \<Rightarrow> bool list res" where
  "series_cmp op vs q = mapM (\<lambda>v. cell_cmp op v q) vs"

text \<open>
  \<open>np.array(x, dtype = 'int')\<close> as the list of its elements. A text is read as \<open>int()\<close> reads
  it, a float is truncated toward zero, and a value outside 64 bits does not fit.
\<close>

definition int64 :: "int \<Rightarrow> int res" where
  "int64 i = (if - (2 ^ 63) \<le> i \<and> i < 2 ^ 63 then Inr i else Inl OverflowError)"

definition int_of_str :: "string \<Rightarrow> int res" where
  "int_of_str s = (case py_int s of None \<Rightarrow> Inl ValueError | Some i \<Rightarrow> int64 i)"

definition np_array_int :: "pyval \<Rightarrow> int list res" where
  "np_array_int x =
     (case x of
        IntV i \<Rightarrow> bind (int64 i) (\<lambda>j. Inr [j])
      | FltV f \<Rightarrow>
          (case f of
             Fin r \<Rightarrow> bind (int64 (if 0 \<le> r then \<lfloor>r\<rfloor> else \<lceil>r\<rceil>)) (\<lambda>j. Inr [j])
           | NaN \<Rightarrow> Inl ValueError
           | _ \<Rightarrow> Inl OverflowError)
      | StrV s \<Rightarrow> bind (int_of_str s) (\<lambda>j. Inr [j])
      | NoneV \<Rightarrow> Inl TypeError
      | LstV ss \<Rightarrow> mapM int_of_str ss)"

text \<open>\<open>np.max\<close> of an array: an empty array has no maximum.\<close>

definition np_max :: "int list \<Rightarrow> int res" where
  "np_max xs = (case xs of [] \<Rightarrow> Inl ValueError | y # ys \<Rightarrow> Inr (fold max ys y))"

text \<open>\<open>series.map(d)\<close> for a dictionary from rule names to scores: no entry gives \<open>NaN\<close>.\<close>

definition series_map :: "(string \<rightharpoonup> int) \<Rightarrow> pyval list \<Rightarrow> pyval list" where
  "series_map d vs =
     map (\<lambda>v. case v of
                 StrV s \<Rightarrow> (case d s of Some n \<Rightarrow> IntV n | None \<Rightarrow> FltV NaN)
               | _ \<Rightarrow> FltV NaN) vs"

subsection \<open>Expressions over a table\<close>

text \<open>
  The operands of an expression are evaluated from left to right, and so are the elements of
  a list display: the first exception ends the evaluation.
\<close>

definition lift :: "('a \<Rightarrow> 'b) \<Rightarrow> 'a res \<Rightarrow> 'b res" where
  "lift f m = bind m (\<lambda>x. Inr (f x))"

definition lift2 :: "('a \<Rightarrow> 'b \<Rightarrow> 'c) \<Rightarrow> 'a res \<Rightarrow> 'b res \<Rightarrow> 'c res" where
  "lift2 f a b = bind a (\<lambda>x. bind b (\<lambda>y. Inr (f x y)))"

definition sequence :: "'a res list \<Rightarrow> 'a list res" where
  "sequence ms = mapM id ms"

text \<open>\<open>df[c] == s\<close>, \<open>df[c] != s\<close>, \<open>df[c].isna()\<close> and \<open>df[c] <= q\<close> (and \<open><\<close>, \<open>>=\<close>, \<open>>\<close>).\<close>

definition eq_col :: "frame \<Rightarrow> string \<Rightarrow> string \<Rightarrow> bool list res" where
  "eq_col df c s = lift (\<lambda>vs. series_eq vs s) (col df c)"

definition ne_col :: "frame \<Rightarrow> string \<Rightarrow> string \<Rightarrow> bool list res" where
  "ne_col df c s = lift (\<lambda>vs. series_ne vs s) (col df c)"

definition isna_col :: "frame \<Rightarrow> string \<Rightarrow> bool list res" where
  "isna_col df c = lift isna (col df c)"

definition cmp_col :: "cmp \<Rightarrow> frame \<Rightarrow> string \<Rightarrow> rat \<Rightarrow> bool list res" where
  "cmp_col op df c q = bind (col df c) (\<lambda>vs. series_cmp op vs q)"

text \<open>\<open>a & b\<close>, \<open>a | b\<close> and \<open>~a\<close> on boolean series.\<close>

definition andR :: "bool list res \<Rightarrow> bool list res \<Rightarrow> bool list res" where
  "andR a b = lift2 band a b"

definition orR :: "bool list res \<Rightarrow> bool list res \<Rightarrow> bool list res" where
  "orR a b = lift2 bor a b"

definition notR :: "bool list res \<Rightarrow> bool list res" where
  "notR a = lift bnot a"

text \<open>\<open>np.any(df[tags] == s, axis = 1)\<close> and \<open>np.any(df[tags].isin(idents), axis = 1)\<close>.\<close>

definition any_eq :: "frame \<Rightarrow> string list \<Rightarrow> string \<Rightarrow> bool list res" where
  "any_eq df tags s = Inr (np_any_axis1 (frame_eq (sub_cells df tags) s))"

definition any_isin :: "frame \<Rightarrow> string list \<Rightarrow> string list \<Rightarrow> bool list res" where
  "any_isin df tags idents = lift np_any_axis1 (frame_isin (sub_cells df tags) idents)"

text \<open>A scalar default of \<open>np.select\<close> stands at every position.\<close>

definition broadcast :: "frame \<Rightarrow> 'a \<Rightarrow> 'a list" where
  "broadcast df v = replicate (length (rows df)) v"

subsection \<open>The classifiers\<close>

text \<open>
  \<open>biking_permitted\<close>, lines 5 to 44. The function writes the column \<open>rule\<close> into the table
  it is given; the result holds that table as the call leaves it, then the two tables
  returned.
\<close>

definition biking_permitted :: "frame \<Rightarrow> (frame \<times> frame \<times> frame) res" where
  "biking_permitted gdf_edges =
     bind (sequence
       [eq_col gdf_edges ''bicycle'' ''no'',
        eq_col gdf_edges ''access'' ''no'',
        eq_col gdf_edges ''highway'' ''motorway'',
        eq_col gdf_edges ''highway'' ''motorway_link'',
        eq_col gdf_edges ''highway'' ''proposed'',
        andR (andR (eq_col gdf_edges ''footway'' ''sidewalk'') (notR (eq_col gdf_edges ''bicycle'' ''yes'')))
             (orR (eq_col gdf_edges ''highway'' ''footway'') (eq_col gdf_edges ''highway'' ''path''))])
     (\<lambda>conditions.
     let values = map StrV [''p2'', ''p6'', ''p3'', ''p4'', ''p7'', ''p5''] in
     bind (np_select conditions values (broadcast gdf_edges (StrV ''p0''))) (\<lambda>rule.
     let gdf_edges' = set_col gdf_edges ''rule'' rule in
     bind (eq_col gdf_edges' ''rule'' ''p0'') (\<lambda>is_p0.
     bind (notR (eq_col gdf_edges' ''rule'' ''p0'')) (\<lambda>not_p0.
     let gdf_allowed = select_rows gdf_edges' is_p0;
         gdf_not_allowed = select_rows gdf_edges' not_p0
     in Inr (gdf_edges', gdf_allowed, gdf_not_allowed)))))"

text \<open>\<open>is_separated_path\<close>, lines 46 to 88; the result is as for \<open>biking_permitted\<close>.\<close>

definition is_separated_path :: "frame \<Rightarrow> (frame \<times> frame \<times> frame) res" where
  "is_separated_path gdf_edges =
     (let cycleway_tags = columns_containing gdf_edges ''cycleway'' in
      bind (sequence
        [eq_col gdf_edges ''highway'' ''cycleway'',
         eq_col gdf_edges ''highway'' ''path'',
         andR (eq_col gdf_edges ''highway'' ''footway'') (notR (eq_col gdf_edges ''footway'' ''crossing'')),
         any_eq gdf_edges cycleway_tags ''track'',
         any_eq gdf_edges cycleway_tags ''opposite_track''])
      (\<lambda>conditions.
      let values = map StrV [''s3'', ''s1'', ''s2'', ''s7'', ''s8''] in
      bind (np_select conditions values (broadcast gdf_edges (StrV ''s0''))) (\<lambda>rule.
      let gdf_edges' = set_col gdf_edges ''rule'' rule in
      bind (ne_col gdf_edges' ''rule'' ''s0'') (\<lambda>not_s0.
      let separated = select_rows gdf_edges' not_s0 in
      bind (eq_col gdf_edges' ''rule'' ''s0'') (\<lambda>is_s0.
      bind (drop_col (select_rows gdf_edges' is_s0) ''rule'') (\<lambda>not_separated.
      Inr (gdf_edges', separated, not_separated)))))))"

text \<open>\<open>is_bike_lane\<close>, lines 90 to 107.\<close>

definition lane_identifiers :: "string list" where
  "lane_identifiers = [''crossing'', ''lane'', ''left'', ''opposite'', ''opposite_lane'', ''right'', ''yes'']"

definition is_bike_lane :: "frame \<Rightarrow> (frame \<times> frame) res" where
  "is_bike_lane gdf_edges =
     (let cycleway_tags = columns_containing gdf_edges ''cycleway'' in
      bind (if ''shoulder:access:bicycle'' \<in> set (columns gdf_edges)
            then orR (any_isin gdf_edges cycleway_tags lane_identifiers)
                     (eq_col gdf_edges ''shoulder:access:bicycle'' ''yes'')
            else any_isin gdf_edges cycleway_tags lane_identifiers)
      (\<lambda>lane_check.
      let to_analyze = select_rows gdf_edges lane_check;
          no_lane = select_rows gdf_edges (bnot lane_check)
      in Inr (to_analyze, no_lane)))"

text \<open>\<open>parking_present\<close>, lines 109 to 121.\<close>

definition parking_identifiers :: "string list" where
  "parking_identifiers = [''yes'', ''parallel'', ''perpendicular'', ''diagonal'', ''marked'']"

definition parking_present :: "frame \<Rightarrow> (frame \<times> frame) res" where
  "parking_present gdf_edges =
     (let parking_tags = columns_containing gdf_edges ''parking'' in
      bind (any_isin gdf_edges parking_tags parking_identifiers) (\<lambda>parking_check.
      let parking_detected = select_rows gdf_edges parking_check;
          parking_not_detected = select_rows gdf_edges (bnot parking_check)
      in Inr (parking_detected, parking_not_detected)))"

subsection \<open>The attribute normalizers\<close>

text \<open>\<open>get_lanes\<close>, lines 123 to 132: the two \<open>apply\<close> passes run one after the other.\<close>

definition get_lanes :: "frame \<Rightarrow> int \<Rightarrow> frame res" where
  "get_lanes gdf_edges default_lanes =
     bind (col gdf_edges ''lanes'') (\<lambda>lanes.
     bind (mapM np_array_int (fillna lanes (IntV default_lanes))) (\<lambda>arrays.
     bind (mapM np_max arrays) (\<lambda>maxima.
     Inr (set_col gdf_edges ''lanes_assumed'' (map IntV maxima)))))"

text \<open>
  \<open>clean_speeds\<close>, lines 187 to 204. The new column is named \<open>key + '_' + units\<close> unless
  the caller names it.
\<close>

definition clean_speeds :: "frame \<Rightarrow> string \<Rightarrow> string \<Rightarrow> string option \<Rightarrow> frame res" where
  "clean_speeds gdf_edges key units newkey =
     (let newkey' = (case newkey of None \<Rightarrow> key @ ''_'' @ units | Some k \<Rightarrow> k) in
      bind (col gdf_edges key) (\<lambda>speeds.
      bind (mapM parse_speed speeds) (\<lambda>parsed.
      Inr (set_col gdf_edges newkey' parsed))))"

text \<open>
  \<open>get_max_speed\<close>, lines 206 to 237. The assignment to \<open>pd.options\<close> only silences a
  warning and is left out.
\<close>

definition get_max_speed :: "frame \<Rightarrow> int \<Rightarrow> int \<Rightarrow> int \<Rightarrow> int \<Rightarrow> int \<Rightarrow> frame res" where
  "get_max_speed gdf_edges national local motorway primary secondary =
     bind (sequence
       [eq_col gdf_edges ''maxspeed'' ''national'',
        andR (isna_col gdf_edges ''maxspeed'') (eq_col gdf_edges ''highway'' ''motorway''),
        andR (isna_col gdf_edges ''maxspeed'') (eq_col gdf_edges ''highway'' ''primary''),
        andR (isna_col gdf_edges ''maxspeed'') (eq_col gdf_edges ''highway'' ''secondary''),
        isna_col gdf_edges ''maxspeed''])
     (\<lambda>conditions.
     let values = map IntV [national, motorway, primary, secondary, local] in
     bind (col gdf_edges ''maxspeed'') (\<lambda>maxspeed.
     bind (np_select conditions values maxspeed) (\<lambda>selected.
     bind (mapM np_array_int selected) (\<lambda>arrays.
     bind (mapM np_max arrays) (\<lambda>maxima.
     Inr (set_col gdf_edges ''maxspeed_assumed'' (map IntV maxima)))))))"

text \<open>
  \<open>get_max_speed_us\<close>, lines 239 to 291. The list \<open>values\<close> names \<open>resdidential\<close>, which is
  neither a parameter nor a global of the module: its evaluation raises \<open>NameError\<close>. The
  list of conditions has six elements for five values.
\<close>

definition get_max_speed_us :: "frame \<Rightarrow> int \<Rightarrow> int \<Rightarrow> int \<Rightarrow> int \<Rightarrow> int \<Rightarrow> frame res" where
  "get_max_speed_us gdf_edges motorway primary secondary tertiary residential =
     bind (sequence
       [andR (isna_col gdf_edges ''maxspeed'') (eq_col gdf_edges ''highway'' ''motorway''),
        andR (isna_col gdf_edges ''maxspeed'') (eq_col gdf_edges ''highway'' ''primary''),
        andR (isna_col gdf_edges ''maxspeed'') (eq_col gdf_edges ''highway'' ''secondary''),
        andR (isna_col gdf_edges ''maxspeed'') (eq_col gdf_edges ''highway'' ''tertiary''),
        andR (isna_col gdf_edges ''maxspeed'') (eq_col gdf_edges ''highway'' ''residential''),
        isna_col gdf_edges ''maxspeed''])
     (\<lambda>conditions.
     bind (lift (\<lambda>resdidential. map IntV [motorway, primary, secondary, tertiary, resdidential])
             (Inl (NameError ''resdidential''))) (\<lambda>values.
     bind (col gdf_edges ''maxspeed'') (\<lambda>maxspeed.
     bind (np_select conditions values maxspeed) (\<lambda>selected.
     bind (mapM np_array_int selected) (\<lambda>arrays.
     bind (mapM np_max arrays) (\<lambda>maxima.
     Inr (set_col gdf_edges ''maxspeed_assumed'' (map IntV maxima))))))))"

subsection \<open>The scoring procedures\<close>

text \<open>\<open>isinstance(x, str)\<close> and \<open>isinstance(x, float)\<close> on the cells of a column.\<close>

definition is_str :: "pyval \<Rightarrow> bool" where
  "is_str v = (case v of StrV s \<Rightarrow> True | _ \<Rightarrow> False)"

definition is_float :: "pyval \<Rightarrow> bool" where
  "is_float v = (case v of FltV f \<Rightarrow> True | _ \<Rightarrow> False)"

text \<open>\<open>df['lts'] = df['rule'].map(rule_dict)\<close>.\<close>

definition assign_lts :: "frame \<Rightarrow> (string \<rightharpoonup> int) \<Rightarrow> frame res" where
  "assign_lts df rule_dict = bind (col df ''rule'') (\<lambda>rule. Inr (set_col df ''lts'' (series_map rule_dict rule)))"

text \<open>\<open>bike_lane_analysis_with_parking\<close>, lines 293 to 317.\<close>

definition rule_dict_with_parking :: "string \<rightharpoonup> int" where
  "rule_dict_with_parking =
     map_of [(''b1'', 1), (''b2'', 3), (''b3'', 3), (''b4'', 2), (''b5'', 2), (''b6'', 2), (''b7'', 3),
             (''b8'', 4), (''b9'', 3)]"

definition bike_lane_analysis_with_parking :: "frame \<Rightarrow> frame res" where
  "bike_lane_analysis_with_parking gdf_edges0 =
     bind (get_lanes gdf_edges0 2) (\<lambda>gdf_edges1.
     bind (get_max_speed gdf_edges1 40 50 100 80 80) (\<lambda>gdf_edges.
     bind (sequence
       [andR (cmp_col GE gdf_edges ''lanes_assumed'' 3) (cmp_col LE gdf_edges ''maxspeed_assumed'' 55),
        cmp_col LE gdf_edges ''width'' 4.1,
        cmp_col LE gdf_edges ''width'' 4.25,
        andR (cmp_col LE gdf_edges ''width'' 4.5)
             (andR (cmp_col LE gdf_edges ''maxspeed_assumed'' 40) (eq_col gdf_edges ''highway'' ''residential'')),
        andR (cmp_col GT gdf_edges ''maxspeed_assumed'' 40) (cmp_col LE gdf_edges ''maxspeed_assumed'' 50),
        andR (cmp_col GT gdf_edges ''maxspeed_assumed'' 50) (cmp_col LE gdf_edges ''maxspeed_assumed'' 55),
        cmp_col GT gdf_edges ''maxspeed_assumed'' 55,
        ne_col gdf_edges ''highway'' ''residential''])
     (\<lambda>conditions.
     let values = map StrV [''b2'', ''b3'', ''b4'', ''b5'', ''b6'', ''b7'', ''b8'', ''b9''] in
     bind (np_select conditions values (broadcast gdf_edges (StrV ''b1''))) (\<lambda>rule.
     assign_lts (set_col gdf_edges ''rule'' rule) rule_dict_with_parking))))"

text \<open>\<open>bike_lane_analysis_no_parking\<close>, lines 319 to 347.\<close>

definition rule_dict_no_parking :: "string \<rightharpoonup> int" where
  "rule_dict_no_parking =
     map_of [(''c1'', 1), (''c3'', 3), (''c4'', 2), (''c5'', 3), (''c6'', 4), (''c7'', 3)]"

definition bike_lane_analysis_no_parking :: "frame \<Rightarrow> frame res" where
  "bike_lane_analysis_no_parking gdf_edges0 =
     bind (get_lanes gdf_edges0 2) (\<lambda>gdf_edges1.
     bind (get_max_speed gdf_edges1 40 50 100 80 80) (\<lambda>gdf_edges2.
     bind (col gdf_edges2 ''width'') (\<lambda>width.
     let gdf_edges = set_col gdf_edges2 ''width'' (map (\<lambda>x. if is_str x then FltV NaN else x) width) in
     bind (sequence
       [andR (cmp_col GE gdf_edges ''lanes_assumed'' 3) (cmp_col LE gdf_edges ''maxspeed_assumed'' 65),
        andR (lift (map is_float) (col gdf_edges ''width'')) (cmp_col LE gdf_edges ''width'' 1.7),
        andR (cmp_col GT gdf_edges ''maxspeed_assumed'' 50) (cmp_col LE gdf_edges ''maxspeed_assumed'' 65),
        cmp_col GT gdf_edges ''maxspeed_assumed'' 65,
        ne_col gdf_edges ''highway'' ''residential''])
     (\<lambda>conditions.
     let values = map StrV [''c3'', ''c4'', ''c5'', ''c6'', ''c7''] in
     bind (np_select conditions values (broadcast gdf_edges (StrV ''c1''))) (\<lambda>rule.
     assign_lts (set_col gdf_edges ''rule'' rule) rule_dict_no_parking)))))"

text \<open>\<open>mixed_traffic\<close>, lines 349 to 385. The default \<open>m0\<close> has no entry in the dictionary.\<close>

definition rule_dict_mixed :: "string \<rightharpoonup> int" where
  "rule_dict_mixed =
     map_of [(''m17'', 1), (''m13'', 1), (''m14'', 2), (''m2'', 2), (''m15'', 2), (''m3'', 2), (''m4'', 2),
             (''m16'', 2), (''m5'', 2), (''m6'', 3), (''m7'', 3), (''m8'', 4), (''m9'', 2), (''m10'', 3),
             (''m11'', 4), (''m12'', 4)]"

definition mixed_traffic :: "frame \<Rightarrow> frame res" where
  "mixed_traffic gdf_edges0 =
     bind (get_lanes gdf_edges0 2) (\<lambda>gdf_edges1.
     bind (get_max_speed gdf_edges1 40 50 100 80 80) (\<lambda>gdf_edges.
     bind (sequence
       [eq_col gdf_edges ''motor_vehicle'' ''no'',
        eq_col gdf_edges ''highway'' ''pedestrian'',
        andR (eq_col gdf_edges ''highway'' ''footway'') (eq_col gdf_edges ''footway'' ''crossing''),
        andR (eq_col gdf_edges ''highway'' ''service'') (eq_col gdf_edges ''service'' ''alley''),
        eq_col gdf_edges ''highway'' ''track'',
        andR (andR (cmp_col LE gdf_edges ''maxspeed_assumed'' 50) (eq_col gdf_edges ''highway'' ''service''))
             (eq_col gdf_edges ''service'' ''parking_aisle''),
        andR (andR (cmp_col LE gdf_edges ''maxspeed_assumed'' 50) (eq_col gdf_edges ''highway'' ''service''))
             (eq_col gdf_edges ''service'' ''driveway''),
        andR (cmp_col LE gdf_edges ''maxspeed_assumed'' 35) (eq_col gdf_edges ''highway'' ''service''),
        andR (andR (cmp_col LE gdf_edges ''maxspeed_assumed'' 40) (cmp_col LE gdf_edges ''lanes_assumed'' 3))
             (eq_col gdf_edges ''highway'' ''residential''),
        andR (cmp_col LE gdf_edges ''maxspeed_assumed'' 40) (cmp_col LE gdf_edges ''lanes_assumed'' 3),
        andR (cmp_col LE gdf_edges ''maxspeed_assumed'' 40) (cmp_col LE gdf_edges ''lanes_assumed'' 5),
        andR (cmp_col LE gdf_edges ''maxspeed_assumed'' 40) (cmp_col GT gdf_edges ''lanes_assumed'' 5),
        andR (andR (cmp_col LE gdf_edges ''maxspeed_assumed'' 50) (cmp_col LT gdf_edges ''lanes_assumed'' 3))
             (eq_col gdf_edges ''highway'' ''residential''),
        andR (cmp_col LE gdf_edges ''maxspeed_assumed'' 50) (cmp_col LE gdf_edges ''lanes_assumed'' 3),
        andR (cmp_col LE gdf_edges ''maxspeed_assumed'' 50) (cmp_col GT gdf_edges ''lanes_assumed'' 3),
        cmp_col GT gdf_edges ''maxspeed_assumed'' 50])
     (\<lambda>conditions.
     let values = map StrV [''m17'', ''m13'', ''m14'', ''m2'', ''m15'', ''m3'', ''m4'', ''m16'', ''m5'', ''m6'',
                            ''m7'', ''m8'', ''m9'', ''m10'', ''m11'', ''m12''] in
     bind (np_select conditions values (broadcast gdf_edges (StrV ''m0''))) (\<lambda>rule.
     assign_lts (set_col gdf_edges ''rule'' rule) rule_dict_mixed))))"

subsection \<open>The rule tables of the specification\<close>

text \<open>\<open>df.index\<close>: the labels of the rows, in order.\<close>

definition index :: "frame \<Rightarrow> nat list" where
  "index df = map fst (rows df)"

text \<open>
  The permission filter as the specification lists it (section 4.1): the rule of the first
  predicate that holds, and \<open>p0\<close> when none does.
\<close>

definition permission_rule_spec :: "row \<Rightarrow> string" where
  "permission_rule_spec r =
     (if cell r ''bicycle'' = StrV ''no'' then ''p2''
      else if cell r ''access'' = StrV ''no'' then ''p6''
      else if cell r ''highway'' = StrV ''motorway'' then ''p3''
      else if cell r ''highway'' = StrV ''motorway_link'' then ''p4''
      else if cell r ''highway'' = StrV ''proposed'' then ''p7''
      else if cell r ''footway'' = StrV ''sidewalk'' \<and> cell r ''bicycle'' \<noteq> StrV ''yes''
              \<and> (cell r ''highway'' = StrV ''footway'' \<or> cell r ''highway'' = StrV ''path'') then ''p5''
      else ''p0'')"

text \<open>The separation classifier as the specification lists it (section 4.2).\<close>

definition separation_rule_spec :: "string list \<Rightarrow> row \<Rightarrow> string" where
  "separation_rule_spec cycleway_tags r =
     (if cell r ''highway'' = StrV ''cycleway'' then ''s3''
      else if cell r ''highway'' = StrV ''path'' then ''s1''
      else if cell r ''highway'' = StrV ''footway'' \<and> cell r ''footway'' \<noteq> StrV ''crossing'' then ''s2''
      else if list_ex (\<lambda>c. cell r c = StrV ''track'') cycleway_tags then ''s7''
      else if list_ex (\<lambda>c. cell r c = StrV ''opposite_track'') cycleway_tags then ''s8''
      else ''s0'')"

text \<open>
  Whether one of the columns \<open>tags\<close> holds one of the identifiers in a row (sections 4.3
  and 4.4).
\<close>

definition tag_in :: "string list \<Rightarrow> string list \<Rightarrow> row \<Rightarrow> bool" where
  "tag_in tags idents r =
     list_ex (\<lambda>c. case cell r c of StrV s \<Rightarrow> s \<in> set idents | _ \<Rightarrow> False) tags"

text \<open>The lane presence and parking presence classifiers as the specification words them.\<close>

definition lane_detected_spec :: "string list \<Rightarrow> row \<Rightarrow> bool" where
  "lane_detected_spec cols r \<longleftrightarrow>
     tag_in (filter (py_in ''cycleway'') cols) lane_identifiers r
     \<or> (''shoulder:access:bicycle'' \<in> set cols \<and> cell r ''shoulder:access:bicycle'' = StrV ''yes'')"

definition parking_detected_spec :: "string list \<Rightarrow> row \<Rightarrow> bool" where
  "parking_detected_spec cols r \<longleftrightarrow> tag_in (filter (py_in ''parking'') cols) parking_identifiers r"

subsection \<open>Example tables\<close>

text \<open>
  Three edges: a residential street with no other tag, a motorway closed to bicycles, and a
  tertiary road with a bicycle lane and parallel parking.
\<close>

definition example_edges :: frame where
  "example_edges =
     \<lparr>columns = [''highway'', ''bicycle'', ''access'', ''footway'', ''cycleway'', ''parking:lane:both'',
                 ''lanes'', ''maxspeed'', ''width'', ''motor_vehicle'', ''service''],
      rows = [(0, [''highway'' \<mapsto> StrV ''residential'']),
              (1, [''highway'' \<mapsto> StrV ''motorway'', ''bicycle'' \<mapsto> StrV ''no'']),
              (2, [''highway'' \<mapsto> StrV ''tertiary'', ''cycleway'' \<mapsto> StrV ''lane'',
                   ''parking:lane:both'' \<mapsto> StrV ''parallel'', ''lanes'' \<mapsto> StrV ''2'',
                   ''maxspeed'' \<mapsto> StrV ''50'', ''width'' \<mapsto> FltV (Fin 4.2)])]\<rparr>"

text \<open>
  Two edges merged from several ways, whose tags differ along the way and are lists: the
  first has a multi-valued \<open>cycleway\<close> and parallel parking, the second a bicycle lane and
  a multi-valued parking tag.
\<close>

definition example_merged :: frame where
  "example_merged =
     \<lparr>columns = [''highway'', ''footway'', ''cycleway'', ''parking:lane:both''],
      rows = [(0, [''highway'' \<mapsto> StrV ''tertiary'', ''cycleway'' \<mapsto> LstV [''lane'', ''track''],
                   ''parking:lane:both'' \<mapsto> StrV ''parallel'']),
              (1, [''highway'' \<mapsto> StrV ''tertiary'', ''cycleway'' \<mapsto> StrV ''lane'',
                   ''parking:lane:both'' \<mapsto> LstV [''parallel'', ''no'']])]\<rparr>"

subsection \<open>The scorers row by row\<close>

text \<open>
  What the normalizers compute for one cell (section 4.5): a multi-valued tag gives its
  maximum, the value is cast to an integer, a missing \<open>lanes\<close> is the default, and a missing
  \<open>maxspeed\<close> is the default for the class of road.
\<close>

definition resolve_int :: "pyval \<Rightarrow> int res" where
  "resolve_int v = bind (np_array_int v) np_max"

definition lanes_assumed_spec :: "int \<Rightarrow> pyval \<Rightarrow> int res" where
  "lanes_assumed_spec default_lanes lanes =
     resolve_int (if is_missing lanes then IntV default_lanes else lanes)"

definition maxspeed_assumed_spec :: "int \<Rightarrow> int \<Rightarrow> int \<Rightarrow> int \<Rightarrow> int \<Rightarrow> pyval \<Rightarrow> pyval \<Rightarrow> int res" where
  "maxspeed_assumed_spec national local motorway primary secondary maxspeed highway =
     resolve_int
       (if maxspeed = StrV ''national'' then IntV national
        else if is_missing maxspeed then
          (if highway = StrV ''motorway'' then IntV motorway
           else if highway = StrV ''primary'' then IntV primary
           else if highway = StrV ''secondary'' then IntV secondary
           else IntV local)
        else maxspeed)"

text \<open>
  The integer of a result that is a value, for use where the result is known to be one.
\<close>

definition int_value :: "int res \<Rightarrow> int" where
  "int_value m = (case m of Inr n \<Rightarrow> n | Inl e \<Rightarrow> 0)"

definition lanes_of :: "row \<Rightarrow> int" where
  "lanes_of r = int_value (lanes_assumed_spec 2 (cell r ''lanes''))"

definition speed_of :: "row \<Rightarrow> int" where
  "speed_of r = int_value (maxspeed_assumed_spec 40 50 100 80 80 (cell r ''maxspeed'') (cell r ''highway''))"

text \<open>A cell that can be compared with a number, and a comparison that holds.\<close>

definition comparable :: "pyval \<Rightarrow> bool" where
  "comparable v = (case v of StrV s \<Rightarrow> False | LstV ss \<Rightarrow> False | _ \<Rightarrow> True)"

definition cmp_holds :: "cmp \<Rightarrow> pyval \<Rightarrow> rat \<Rightarrow> bool" where
  "cmp_holds op v q \<longleftrightarrow> cell_cmp op v q = Inr True"

text \<open>The lane and parking scorer as the specification lists it (section 4.6): rule and LTS.\<close>

definition lane_parking_spec :: "int \<Rightarrow> int \<Rightarrow> pyval \<Rightarrow> pyval \<Rightarrow> string \<times> int" where
  "lane_parking_spec lanes_assumed maxspeed_assumed width highway =
     (if lanes_assumed \<ge> 3 \<and> maxspeed_assumed \<le> 55 then (''b2'', 3)
      else if cmp_holds LE width 4.1 then (''b3'', 3)
      else if cmp_holds LE width 4.25 then (''b4'', 2)
      else if cmp_holds LE width 4.5 \<and> maxspeed_assumed \<le> 40 \<and> highway = StrV ''residential''
        then (''b5'', 2)
      else if 40 < maxspeed_assumed \<and> maxspeed_assumed \<le> 50 then (''b6'', 2)
      else if 50 < maxspeed_assumed \<and> maxspeed_assumed \<le> 55 then (''b7'', 3)
      else if maxspeed_assumed > 55 then (''b8'', 4)
      else if highway \<noteq> StrV ''residential'' then (''b9'', 3)
      else (''b1'', 1))"

text \<open>The lane and no parking scorer (section 4.7), on the width after its clean-up.\<close>

definition lane_no_parking_spec :: "int \<Rightarrow> int \<Rightarrow> pyval \<Rightarrow> pyval \<Rightarrow> string \<times> int" where
  "lane_no_parking_spec lanes_assumed maxspeed_assumed width highway =
     (if lanes_assumed \<ge> 3 \<and> maxspeed_assumed \<le> 65 then (''c3'', 3)
      else if is_float width \<and> cmp_holds LE width 1.7 then (''c4'', 2)
      else if 50 < maxspeed_assumed \<and> maxspeed_assumed \<le> 65 then (''c5'', 3)
      else if maxspeed_assumed > 65 then (''c6'', 4)
      else if highway \<noteq> StrV ''residential'' then (''c7'', 3)
      else (''c1'', 1))"

text \<open>The mixed traffic scorer (section 4.8): the rule, in the order of the source.\<close>

definition mixed_rule_spec :: "int \<Rightarrow> int \<Rightarrow> pyval \<Rightarrow> pyval \<Rightarrow> pyval \<Rightarrow> pyval \<Rightarrow> string" where
  "mixed_rule_spec lanes_assumed maxspeed_assumed motor_vehicle highway footway service =
     (if motor_vehicle = StrV ''no'' then ''m17''
      else if highway = StrV ''pedestrian'' then ''m13''
      else if highway = StrV ''footway'' \<and> footway = StrV ''crossing'' then ''m14''
      else if highway = StrV ''service'' \<and> service = StrV ''alley'' then ''m2''
      else if highway = StrV ''track'' then ''m15''
      else if maxspeed_assumed \<le> 50 \<and> highway = StrV ''service'' \<and> service = StrV ''parking_aisle''
        then ''m3''
      else if maxspeed_assumed \<le> 50 \<and> highway = StrV ''service'' \<and> service = StrV ''driveway''
        then ''m4''
      else if maxspeed_assumed \<le> 35 \<and> highway = StrV ''service'' then ''m16''
      else if maxspeed_assumed \<le> 40 \<and> lanes_assumed \<le> 3 \<and> highway = StrV ''residential'' then ''m5''
      else if maxspeed_assumed \<le> 40 \<and> lanes_assumed \<le> 3 then ''m6''
      else if maxspeed_assumed \<le> 40 \<and> lanes_assumed \<le> 5 then ''m7''
      else if maxspeed_assumed \<le> 40 \<and> lanes_assumed > 5 then ''m8''
      else if maxspeed_assumed \<le> 50 \<and> lanes_assumed < 3 \<and> highway = StrV ''residential'' then ''m9''
      else if maxspeed_assumed \<le> 50 \<and> lanes_assumed \<le> 3 then ''m10''
      else if maxspeed_assumed \<le> 50 \<and> lanes_assumed > 3 then ''m11''
      else if maxspeed_assumed > 50 then ''m12''
      else ''m0'')"

text \<open>
  A row after \<open>get_lanes\<close> and \<open>get_max_speed\<close> with their default parameters, the columns
  of such a table, and the rows for which both normalizers give a value.
\<close>

definition with_assumed :: "nat \<times> row \<Rightarrow> nat \<times> row" where
  "with_assumed p =
     (fst p, (snd p)(''lanes_assumed'' \<mapsto> IntV (lanes_of (snd p)),
                     ''maxspeed_assumed'' \<mapsto> IntV (speed_of (snd p))))"

definition assumed_columns :: "string list \<Rightarrow> string list" where
  "assumed_columns cs =
     (let cs1 = (if ''lanes_assumed'' \<in> set cs then cs else cs @ [''lanes_assumed''])
      in if ''maxspeed_assumed'' \<in> set cs1 then cs1 else cs1 @ [''maxspeed_assumed''])"

definition resolvable :: "row \<Rightarrow> bool" where
  "resolvable r \<longleftrightarrow>
     (\<exists>n. lanes_assumed_spec 2 (cell r ''lanes'') = Inr n)
     \<and> (\<exists>v. maxspeed_assumed_spec 40 50 100 80 80 (cell r ''maxspeed'') (cell r ''highway'') = Inr v)"

text \<open>One edge whose speed limit names its unit.\<close>

definition example_mph :: frame where
  "example_mph =
     \<lparr>columns = [''highway'', ''maxspeed'', ''lanes'', ''width'', ''motor_vehicle'', ''footway'', ''service''],
      rows = [(7, [''highway'' \<mapsto> StrV ''residential'', ''maxspeed'' \<mapsto> StrV ''35 mph''])]\<rparr>"

text \<open>
  One residential street with no other tag, in a table that has columns of the cycleway and
  parking families.
\<close>

definition example_residential :: frame where
  "example_residential =
     \<lparr>columns = [''highway'', ''bicycle'', ''access'', ''footway'', ''cycleway'', ''cycleway:right'',
                 ''parking:lane:both'', ''shoulder:access:bicycle'', ''lanes'', ''maxspeed'', ''width'',
                 ''motor_vehicle'', ''service''],
      rows = [(0, [''highway'' \<mapsto> StrV ''residential''])]\<rparr>"

section \<open>Properties\<close>

subsection \<open>Exceptions as values\<close>

lemma bind_Inr [simp]: "bind (Inr x) f = f x"
  by (simp add: bind_def)

lemma bind_Inl [simp]: "bind (Inl e) f = Inl e"
  by (simp add: bind_def)

lemma bind_eq_Inr: "bind m f = Inr y \<longleftrightarrow> (\<exists>x. m = Inr x \<and> f x = Inr y)"
  by (cases m) simp_all

subsection \<open>The speed parser\<close>

lemma knots_to_mph_nan: "knots_to_mph f = NaN \<longleftrightarrow> f = NaN"
  by (cases f) (simp_all add: knots_to_mph_def float_times_def)

lemma float_of_str_Inr: "float_of_str t = Inr f \<longleftrightarrow> py_float t = Some f"
  by (simp add: float_of_str_def split: option.splits)

text \<open>
  C6. \<open>parse_speed\<close> maps \<open>"35 mph"\<close> to 35.0, \<open>"10 knots"\<close> to 11.5078, which is the
  leading numeral times the factor 1.15078, the bare numeral \<open>"50"\<close> to 50.0 with no
  conversion, and a missing input (\<open>NaN\<close>) to a missing output.
\<close>

theorem parse_speed_examples:
  "parse_speed (StrV ''35 mph'') = Inr (FltV (Fin 35))
   \<and> parse_speed (StrV ''10 knots'') = Inr (FltV (Fin 11.5078))
   \<and> knots_to_mph (Fin 10) = Fin 11.5078
   \<and> Fin 11.5078 = Fin (10 * 1.15078)
   \<and> parse_speed (StrV ''50'') = Inr (FltV (Fin 50))
   \<and> parse_speed (FltV NaN) = Inr (FltV NaN)"
proof -
  have a: "parse_speed (StrV ''35 mph'') = Inr (FltV (Fin 35))"
    by code_simp
  have b: "parse_speed (StrV ''10 knots'') = Inr (FltV (knots_to_mph (Fin 10)))"
    by code_simp
  have c: "knots_to_mph (Fin 10) = Fin 11.5078"
    by (simp add: knots_to_mph_def float_times_def)
  have c': "Fin 11.5078 = Fin (10 * 1.15078)"
    by simp
  have d: "parse_speed (StrV ''50'') = Inr (FltV (Fin 50))"
    by code_simp
  have e: "parse_speed (FltV NaN) = Inr (FltV NaN)"
    by (simp add: parse_speed_def np_isnan_def)
  from a b c c' d e show ?thesis by simp
qed

text \<open>
  C10. For every input that is not a string and is a number other than \<open>NaN\<close> (a float, or
  an integer that NumPy accepts), \<open>parse_speed\<close> returns \<open>None\<close> and not the number: a
  speed that is present comes out as a missing result.
\<close>

theorem parse_speed_numeric_gives_none:
  assumes "(\<exists>i. x = IntV i \<and> - (2 ^ 63) \<le> i \<and> i < 2 ^ 64) \<or> (\<exists>f. x = FltV f \<and> f \<noteq> NaN)"
  shows "parse_speed x = Inr NoneV"
  using assms by (auto simp: parse_speed_def np_isnan_def)

theorem parse_speed_numeric_gives_none_witness:
  "parse_speed (FltV (Fin 50)) = Inr NoneV \<and> parse_speed (IntV 50) = Inr NoneV"
proof -
  have f: "(\<exists>i. FltV (Fin 50) = IntV i \<and> - (2 ^ 63) \<le> i \<and> i < 2 ^ 64)
           \<or> (\<exists>f. FltV (Fin 50) = FltV f \<and> f \<noteq> NaN)"
    by simp
  have i: "(\<exists>i. IntV 50 = IntV i \<and> - (2 ^ 63) \<le> i \<and> i < 2 ^ 64)
           \<or> (\<exists>f. IntV 50 = FltV f \<and> f \<noteq> NaN)"
    by simp
  show ?thesis
    using parse_speed_numeric_gives_none [OF f] parse_speed_numeric_gives_none [OF i] by simp
qed

text \<open>
  C7, as the claim states it: \<open>parse_speed\<close> returns a missing value only for an input that
  is absent. The text \<open>"nan"\<close> is present, has no unit suffix, and comes back as \<open>NaN\<close>,
  because \<open>float()\<close> reads it as a number.
\<close>

theorem parse_speed_nan_text_counterexample:
  "parse_speed (StrV ''nan'') = Inr (FltV NaN)"
  by code_simp

text \<open>
  C7, amended. For every string that contains neither \<open>mph\<close> nor \<open>knots\<close> and that
  \<open>float()\<close> rejects, \<open>parse_speed\<close> raises \<open>ValueError\<close>: nothing is coerced and no default
  is put in its place. It returns \<open>NaN\<close> exactly for the input \<open>NaN\<close> and for a string whose
  numeral text (the first token when a unit is named, else the whole string) \<open>float()\<close> reads
  as \<open>nan\<close>.
\<close>

theorem parse_speed_failure:
  "(\<not> py_in ''mph'' s \<and> \<not> py_in ''knots'' s \<and> py_float s = None
      \<longrightarrow> parse_speed (StrV s) = Inl ValueError)
   \<and> (parse_speed x = Inr (FltV NaN) \<longleftrightarrow>
        x = FltV NaN
        \<or> (\<exists>s t. x = StrV s
             \<and> (if py_in ''mph'' s \<or> py_in ''knots'' s then first_token s else Inr s) = Inr t
             \<and> py_float t = Some NaN))"
proof (intro conjI impI)
  assume "\<not> py_in ''mph'' s \<and> \<not> py_in ''knots'' s \<and> py_float s = None"
  then show "parse_speed (StrV s) = Inl ValueError"
    by (simp add: parse_speed_def float_of_str_def)
next
  show "parse_speed x = Inr (FltV NaN) \<longleftrightarrow>
        x = FltV NaN
        \<or> (\<exists>s t. x = StrV s
             \<and> (if py_in ''mph'' s \<or> py_in ''knots'' s then first_token s else Inr s) = Inr t
             \<and> py_float t = Some NaN)"
  proof (cases x)
    case (StrV s)
    then show ?thesis
      by (auto simp: parse_speed_def bind_eq_Inr float_of_str_Inr knots_to_mph_nan)
  next
    case (IntV i)
    then show ?thesis by (simp add: parse_speed_def np_isnan_def)
  next
    case (FltV f)
    then show ?thesis by (simp add: parse_speed_def np_isnan_def)
  next
    case NoneV
    then show ?thesis by (simp add: parse_speed_def np_isnan_def)
  next
    case (LstV ss)
    then show ?thesis by (simp add: parse_speed_def np_isnan_def)
  qed
qed

theorem parse_speed_failure_witness:
  "\<not> py_in ''mph'' ''fast'' \<and> \<not> py_in ''knots'' ''fast'' \<and> py_float ''fast'' = None
   \<and> parse_speed (StrV ''fast'') = Inl ValueError
   \<and> parse_speed (StrV ''NaN mph'') = Inr (FltV NaN)"
proof -
  have h: "\<not> py_in ''mph'' ''fast'' \<and> \<not> py_in ''knots'' ''fast'' \<and> py_float ''fast'' = None"
    by code_simp
  have t: "first_token ''NaN mph'' = Inr ''NaN''"
    by code_simp
  have n: "py_float ''NaN'' = Some NaN"
    by code_simp
  have m: "py_in ''mph'' ''NaN mph''"
    by code_simp
  have "\<exists>s t. StrV ''NaN mph'' = StrV s
             \<and> (if py_in ''mph'' s \<or> py_in ''knots'' s then first_token s else Inr s) = Inr t
             \<and> py_float t = Some NaN"
    using t n m by (intro exI [of _ "''NaN mph''"] exI [of _ "''NaN''"]) simp
  with h parse_speed_failure [of "''fast''" "StrV ''NaN mph''"] show ?thesis
    by blast
qed

subsection \<open>Tables row by row\<close>

lemma lift_Inr [simp]: "lift f (Inr x) = Inr (f x)"
  by (simp add: lift_def)

lemma lift_Inl [simp]: "lift f (Inl e) = Inl e"
  by (simp add: lift_def)

lemma lift_eq_Inr: "lift f m = Inr y \<longleftrightarrow> (\<exists>x. m = Inr x \<and> y = f x)"
  by (cases m) auto

lemma lift2_eq_Inr: "lift2 f a b = Inr z \<longleftrightarrow> (\<exists>x y. a = Inr x \<and> b = Inr y \<and> z = f x y)"
  by (cases a; cases b) (auto simp: lift2_def)

lemma sequence_Nil_eq_Inr: "sequence [] = Inr ys \<longleftrightarrow> ys = []"
  by (auto simp: sequence_def)

lemma sequence_Cons_eq_Inr:
  "sequence (m # ms) = Inr ys \<longleftrightarrow> (\<exists>x xs. m = Inr x \<and> sequence ms = Inr xs \<and> ys = x # xs)"
  by (cases m; cases "mapM id ms") (auto simp: sequence_def)

lemma andR_eq_Inr: "andR a b = Inr z \<longleftrightarrow> (\<exists>x y. a = Inr x \<and> b = Inr y \<and> z = band x y)"
  by (simp add: andR_def lift2_eq_Inr)

lemma orR_eq_Inr: "orR a b = Inr z \<longleftrightarrow> (\<exists>x y. a = Inr x \<and> b = Inr y \<and> z = bor x y)"
  by (simp add: orR_def lift2_eq_Inr)

lemma notR_eq_Inr: "notR a = Inr z \<longleftrightarrow> (\<exists>x. a = Inr x \<and> z = bnot x)"
  by (simp add: notR_def lift_eq_Inr)

lemma col_eq_Inr:
  "col df c = Inr vs \<longleftrightarrow> c \<in> set (columns df) \<and> vs = map (\<lambda>p. cell (snd p) c) (rows df)"
  by (auto simp: col_def case_prod_unfold)

lemma eq_col_eq_Inr:
  "eq_col df c s = Inr bs \<longleftrightarrow>
     c \<in> set (columns df) \<and> bs = map (\<lambda>p. cell (snd p) c = StrV s) (rows df)"
  by (auto simp: eq_col_def lift_eq_Inr col_eq_Inr series_eq_def comp_def)

lemma ne_col_eq_Inr:
  "ne_col df c s = Inr bs \<longleftrightarrow>
     c \<in> set (columns df) \<and> bs = map (\<lambda>p. cell (snd p) c \<noteq> StrV s) (rows df)"
  by (auto simp: ne_col_def lift_eq_Inr col_eq_Inr series_ne_def comp_def)

lemma isna_col_eq_Inr:
  "isna_col df c = Inr bs \<longleftrightarrow>
     c \<in> set (columns df) \<and> bs = map (\<lambda>p. is_missing (cell (snd p) c)) (rows df)"
  by (auto simp: isna_col_def lift_eq_Inr col_eq_Inr isna_def comp_def)

lemma map2_same: "map (case_prod f) (zip (map p xs) (map q xs)) = map (\<lambda>x. f (p x) (q x)) xs"
  by (induction xs) simp_all

lemma band_map [simp]: "band (map p xs) (map q xs) = map (\<lambda>x. p x \<and> q x) xs"
  by (simp add: band_def map2_same)

lemma bor_map [simp]: "bor (map p xs) (map q xs) = map (\<lambda>x. p x \<or> q x) xs"
  by (simp add: bor_def map2_same)

lemma bnot_map [simp]: "bnot (map p xs) = map (\<lambda>x. \<not> p x) xs"
  by (simp add: bnot_def)

lemma broadcast_map: "broadcast df v = map (\<lambda>p. v) (rows df)"
  by (simp add: broadcast_def map_replicate_const)

lemma np_select_Cons_map:
  "np_select (map p xs # cs) (v # vs) d = Inr res \<longleftrightarrow>
     (\<exists>rest. np_select cs vs d = Inr rest \<and> res = map (case_prod (\<lambda>b r. if b then v else r)) (zip (map p xs) rest))"
  by (cases "np_select cs vs d") auto

lemma set_col_map:
  "set_col df c (map g (rows df)) =
     \<lparr>columns = (if c \<in> set (columns df) then columns df else columns df @ [c]),
      rows = map (\<lambda>p. (fst p, (snd p)(c \<mapsto> g p))) (rows df)\<rparr>"
proof -
  have "map (case_prod (\<lambda>(i, r) v. (i, r(c \<mapsto> v)))) (zip xs (map g xs))
          = map (\<lambda>p. (fst p, (snd p)(c \<mapsto> g p))) xs" for xs :: "(nat \<times> row) list"
    by (induction xs) (auto simp: case_prod_unfold)
  then show ?thesis by (simp add: set_col_def)
qed

lemma select_rows_map:
  "select_rows \<lparr>columns = cs, rows = map f xs\<rparr> (map p xs) = \<lparr>columns = cs, rows = map f (filter p xs)\<rparr>"
proof -
  have "map fst (filter snd (zip (map f xs) (map p xs))) = map f (filter p xs)"
    by (induction xs) simp_all
  then show ?thesis by (simp add: select_rows_def)
qed

lemma cell_upd [simp]: "cell (r(c \<mapsto> v)) c' = (if c' = c then v else cell r c')"
  by (simp add: cell_def)

lemma permission_cascade:
  "(if cell r ''bicycle'' = StrV ''no'' then StrV ''p2''
    else if cell r ''access'' = StrV ''no'' then StrV ''p6''
    else if cell r ''highway'' = StrV ''motorway'' then StrV ''p3''
    else if cell r ''highway'' = StrV ''motorway_link'' then StrV ''p4''
    else if cell r ''highway'' = StrV ''proposed'' then StrV ''p7''
    else if cell r ''footway'' = StrV ''sidewalk'' \<and> cell r ''bicycle'' \<noteq> StrV ''yes''
            \<and> (cell r ''highway'' = StrV ''footway'' \<or> cell r ''highway'' = StrV ''path'') then StrV ''p5''
    else StrV ''p0'') = StrV (permission_rule_spec r)"
  by (auto simp: permission_rule_spec_def)

subsection \<open>The classifiers in closed form\<close>

lemma biking_permitted_Inr:
  assumes "biking_permitted df = Inr res"
  shows "res =
    (\<lparr>columns = (if ''rule'' \<in> set (columns df) then columns df else columns df @ [''rule'']),
      rows = map (\<lambda>p. (fst p, (snd p)(''rule'' \<mapsto> StrV (permission_rule_spec (snd p))))) (rows df)\<rparr>,
     \<lparr>columns = (if ''rule'' \<in> set (columns df) then columns df else columns df @ [''rule'']),
      rows = map (\<lambda>p. (fst p, (snd p)(''rule'' \<mapsto> StrV (permission_rule_spec (snd p)))))
               (filter (\<lambda>p. permission_rule_spec (snd p) = ''p0'') (rows df))\<rparr>,
     \<lparr>columns = (if ''rule'' \<in> set (columns df) then columns df else columns df @ [''rule'']),
      rows = map (\<lambda>p. (fst p, (snd p)(''rule'' \<mapsto> StrV (permission_rule_spec (snd p)))))
               (filter (\<lambda>p. permission_rule_spec (snd p) \<noteq> ''p0'') (rows df))\<rparr>)"
  using assms unfolding biking_permitted_def
  by (auto simp: bind_eq_Inr sequence_Cons_eq_Inr sequence_Nil_eq_Inr andR_eq_Inr orR_eq_Inr notR_eq_Inr
        eq_col_eq_Inr Let_def np_select_Cons_map map2_same broadcast_map set_col_map select_rows_map
        comp_def permission_cascade)

lemma eq_col_present:
  "c \<in> set (columns df) \<Longrightarrow> eq_col df c s = Inr (map (\<lambda>p. cell (snd p) c = StrV s) (rows df))"
  by (simp add: eq_col_eq_Inr)

lemma ne_col_present:
  "c \<in> set (columns df) \<Longrightarrow> ne_col df c s = Inr (map (\<lambda>p. cell (snd p) c \<noteq> StrV s) (rows df))"
  by (simp add: ne_col_eq_Inr)

lemma isna_col_present:
  "c \<in> set (columns df) \<Longrightarrow> isna_col df c = Inr (map (\<lambda>p. is_missing (cell (snd p) c)) (rows df))"
  by (simp add: isna_col_eq_Inr)

lemma col_present:
  "c \<in> set (columns df) \<Longrightarrow> col df c = Inr (map (\<lambda>p. cell (snd p) c) (rows df))"
  by (simp add: col_eq_Inr)

lemma andR_Inr [simp]: "andR (Inr a) (Inr b) = Inr (band a b)"
  by (simp add: andR_def lift2_def)

lemma orR_Inr [simp]: "orR (Inr a) (Inr b) = Inr (bor a b)"
  by (simp add: orR_def lift2_def)

lemma notR_Inr [simp]: "notR (Inr a) = Inr (bnot a)"
  by (simp add: notR_def)

lemma sequence_Nil [simp]: "sequence [] = Inr []"
  by (simp add: sequence_def)

lemma sequence_Inr_Cons [simp]: "sequence (Inr x # ms) = lift (Cons x) (sequence ms)"
  by (cases "mapM id ms") (simp_all add: sequence_def)

lemma sequence_Inl_Cons [simp]: "sequence (Inl e # ms) = Inl e"
  by (simp add: sequence_def)

lemma biking_permitted_total:
  assumes "''bicycle'' \<in> set (columns df)" "''access'' \<in> set (columns df)"
    "''highway'' \<in> set (columns df)" "''footway'' \<in> set (columns df)"
  shows "\<exists>res. biking_permitted df = Inr res"
  using assms unfolding biking_permitted_def
  by (simp add: eq_col_present Let_def map2_same broadcast_map set_col_map)

lemma separation_cascade:
  "(if cell r ''highway'' = StrV ''cycleway'' then StrV ''s3''
    else if cell r ''highway'' = StrV ''path'' then StrV ''s1''
    else if cell r ''highway'' = StrV ''footway'' \<and> cell r ''footway'' \<noteq> StrV ''crossing'' then StrV ''s2''
    else if list_ex (\<lambda>c. cell r c = StrV ''track'') tags then StrV ''s7''
    else if list_ex (\<lambda>c. cell r c = StrV ''opposite_track'') tags then StrV ''s8''
    else StrV ''s0'') = StrV (separation_rule_spec tags r)"
  by (auto simp: separation_rule_spec_def)

lemma any_eq_map:
  "any_eq df tags s = Inr (map (\<lambda>p. list_ex (\<lambda>c. cell (snd p) c = StrV s) tags) (rows df))"
  by (simp add: any_eq_def np_any_axis1_def frame_eq_def sub_cells_def series_eq_def comp_def
      case_prod_unfold list_ex_iff)

lemma drop_col_map:
  "drop_col \<lparr>columns = cs, rows = xs\<rparr> c = Inr res \<longleftrightarrow>
     c \<in> set cs \<and> res = \<lparr>columns = removeAll c cs, rows = map (\<lambda>p. (fst p, (snd p)(c := None))) xs\<rparr>"
  by (auto simp: drop_col_def case_prod_unfold)

lemma is_separated_path_Inr:
  assumes "is_separated_path df = Inr res"
  shows "res =
    (let tags = columns_containing df ''cycleway'';
         cols = (if ''rule'' \<in> set (columns df) then columns df else columns df @ [''rule'']) in
     (\<lparr>columns = cols,
       rows = map (\<lambda>p. (fst p, (snd p)(''rule'' \<mapsto> StrV (separation_rule_spec tags (snd p))))) (rows df)\<rparr>,
      \<lparr>columns = cols,
       rows = map (\<lambda>p. (fst p, (snd p)(''rule'' \<mapsto> StrV (separation_rule_spec tags (snd p)))))
               (filter (\<lambda>p. separation_rule_spec tags (snd p) \<noteq> ''s0'') (rows df))\<rparr>,
      \<lparr>columns = removeAll ''rule'' cols,
       rows = map (\<lambda>p. (fst p, (snd p)(''rule'' := None)))
               (filter (\<lambda>p. separation_rule_spec tags (snd p) = ''s0'') (rows df))\<rparr>))"
  using assms unfolding is_separated_path_def
  by (auto simp: bind_eq_Inr sequence_Cons_eq_Inr sequence_Nil_eq_Inr andR_eq_Inr orR_eq_Inr notR_eq_Inr
        eq_col_eq_Inr ne_col_eq_Inr Let_def np_select_Cons_map map2_same broadcast_map set_col_map select_rows_map
        comp_def separation_cascade any_eq_map drop_col_map)

lemma is_separated_path_total:
  assumes "''highway'' \<in> set (columns df)" "''footway'' \<in> set (columns df)"
  shows "\<exists>res. is_separated_path df = Inr res"
  using assms unfolding is_separated_path_def
  by (simp add: eq_col_present ne_col_present Let_def map2_same broadcast_map set_col_map any_eq_map
       select_rows_map drop_col_def)

lemma mapM_Inr_map:
  "mapM f xs = Inr ys \<Longrightarrow> (\<And>x y. x \<in> set xs \<Longrightarrow> f x = Inr y \<Longrightarrow> y = g x) \<Longrightarrow> ys = map g xs"
proof (induction xs arbitrary: ys)
  case Nil
  then show ?case by simp
next
  case (Cons x xs)
  then show ?case
    by (auto split: sum.splits)
qed

lemma mapM_total:
  "(\<And>x. x \<in> set xs \<Longrightarrow> f x = Inr (g x)) \<Longrightarrow> mapM f xs = Inr (map g xs)"
  by (induction xs) simp_all

lemma mapM_length: "mapM f xs = Inr ys \<Longrightarrow> length ys = length xs"
  by (induction xs arbitrary: ys) (auto split: sum.splits)

lemma isin_val_Inr: "isin_val v idents = Inr b \<Longrightarrow> b = (case v of StrV s \<Rightarrow> s \<in> set idents | _ \<Rightarrow> False)"
  by (cases v) (auto simp: isin_val_def)

lemma any_isin_Inr:
  assumes "any_isin df tags idents = Inr m"
  shows "m = map (\<lambda>p. tag_in tags idents (snd p)) (rows df)"
proof -
  from assms obtain bss where b: "mapM (mapM (\<lambda>v. isin_val v idents)) (sub_cells df tags) = Inr bss"
    and m: "m = np_any_axis1 bss"
    by (auto simp: any_isin_def frame_isin_def lift_eq_Inr)
  have "bss = map (map (\<lambda>v. case v of StrV s \<Rightarrow> s \<in> set idents | _ \<Rightarrow> False)) (sub_cells df tags)"
    using b
  proof (rule mapM_Inr_map)
    fix vs bs
    assume "mapM (\<lambda>v. isin_val v idents) vs = Inr bs"
    then show "bs = map (\<lambda>v. case v of StrV s \<Rightarrow> s \<in> set idents | _ \<Rightarrow> False) vs"
      by (rule mapM_Inr_map) (rule isin_val_Inr)
  qed
  with m show ?thesis
    by (simp add: np_any_axis1_def sub_cells_def tag_in_def comp_def case_prod_unfold list_ex_iff)
qed

lemma isin_val_total: "isin_val v idents = Inr (case v of StrV s \<Rightarrow> s \<in> set idents | _ \<Rightarrow> False)"
  by (cases v) (simp_all add: isin_val_def)

lemma any_isin_total:
  "any_isin df tags idents = Inr (map (\<lambda>p. tag_in tags idents (snd p)) (rows df))"
proof -
  have "mapM (mapM (\<lambda>v. isin_val v idents)) (sub_cells df tags)
        = Inr (map (map (\<lambda>v. case v of StrV s \<Rightarrow> s \<in> set idents | _ \<Rightarrow> False)) (sub_cells df tags))"
    by (intro mapM_total isin_val_total)
  then show ?thesis
    by (simp add: any_isin_def frame_isin_def np_any_axis1_def sub_cells_def tag_in_def comp_def
        case_prod_unfold list_ex_iff)
qed

lemma select_rows_same:
  "select_rows df (map p (rows df)) = \<lparr>columns = columns df, rows = filter p (rows df)\<rparr>"
proof -
  have "map fst (filter snd (zip xs (map p xs))) = filter p xs" for xs :: "(nat \<times> row) list"
    by (induction xs) simp_all
  then show ?thesis by (simp add: select_rows_def)
qed

lemma is_bike_lane_Inr:
  assumes "is_bike_lane df = Inr res"
  shows "res =
    (\<lparr>columns = columns df, rows = filter (\<lambda>p. lane_detected_spec (columns df) (snd p)) (rows df)\<rparr>,
     \<lparr>columns = columns df, rows = filter (\<lambda>p. \<not> lane_detected_spec (columns df) (snd p)) (rows df)\<rparr>)"
  using assms unfolding is_bike_lane_def
  by (auto simp: bind_eq_Inr Let_def orR_eq_Inr eq_col_eq_Inr select_rows_same lane_detected_spec_def
      columns_containing_def dest!: any_isin_Inr split: if_splits)

lemma parking_present_Inr:
  assumes "parking_present df = Inr res"
  shows "res =
    (\<lparr>columns = columns df, rows = filter (\<lambda>p. parking_detected_spec (columns df) (snd p)) (rows df)\<rparr>,
     \<lparr>columns = columns df, rows = filter (\<lambda>p. \<not> parking_detected_spec (columns df) (snd p)) (rows df)\<rparr>)"
  using assms unfolding parking_present_def
  by (auto simp: bind_eq_Inr Let_def select_rows_same parking_detected_spec_def
      columns_containing_def dest!: any_isin_Inr)

lemma tag_classifiers_total:
  shows "\<exists>res. is_bike_lane df = Inr res" and "\<exists>res. parking_present df = Inr res"
  by (simp_all add: is_bike_lane_def parking_present_def Let_def eq_col_present any_isin_total)

subsection \<open>Priority and partition in the classifiers\<close>

lemma partition_index:
  assumes F: "\<And>p. fst (F p) = fst p" and G: "\<And>p. fst (G p) = fst p"
  shows "mset (map fst (map F (filter P xs))) + mset (map fst (map G (filter (\<lambda>p. \<not> P p) xs)))
           = mset (map fst xs)"
    and "distinct (map fst xs) \<Longrightarrow>
           set (map fst (map F (filter P xs))) \<inter> set (map fst (map G (filter (\<lambda>p. \<not> P p) xs))) = {}"
proof -
  have f: "map fst (map F ys) = map fst ys" and g: "map fst (map G ys) = map fst ys" for ys
    by (simp_all add: F G comp_def)
  show "mset (map fst (map F (filter P xs))) + mset (map fst (map G (filter (\<lambda>p. \<not> P p) xs)))
           = mset (map fst xs)"
    unfolding f g by (induction xs) simp_all
  show "set (map fst (map F (filter P xs))) \<inter> set (map fst (map G (filter (\<lambda>p. \<not> P p) xs))) = {}"
    if "distinct (map fst xs)"
  proof -
    from that have "inj_on fst (set xs)"
      by (simp add: distinct_map)
    then show ?thesis
      unfolding f g by (auto dest: inj_onD)
  qed
qed

lemma partition_rows:
  assumes F: "\<And>p. H (F p) = H p" and G: "\<And>p. H (G p) = H p"
  shows "mset (map H (map F (filter P xs))) + mset (map H (map G (filter (\<lambda>p. \<not> P p) xs)))
           = mset (map H xs)"
proof -
  have f: "map H (map F ys) = map H ys" and g: "map H (map G ys) = map H ys" for ys
    by (simp_all add: F G comp_def)
  show ?thesis
    unfolding f g by (induction xs) simp_all
qed

text \<open>
  C2. \<open>is_bike_lane\<close> and \<open>parking_present\<close> return on every table of edges, also when a
  tag is multi-valued (a list), and \<open>biking_permitted\<close> and \<open>is_separated_path\<close> return on
  every table that has the columns they read. Whenever one of the four returns, its two
  outputs partition the input: the index labels of the two outputs together are those of the
  input, each as often (no edge is dropped, none is duplicated); when the labels of the input
  are distinct, no label is in both outputs; and the rows of the outputs are the rows of the
  input, exactly for \<open>is_bike_lane\<close> and \<open>parking_present\<close>, and up to the column \<open>rule\<close>,
  which they write, for \<open>biking_permitted\<close> and \<open>is_separated_path\<close>.
\<close>

theorem classifiers_partition:
  "(set [''bicycle'', ''access'', ''highway'', ''footway''] \<subseteq> set (columns df)
      \<longrightarrow> (\<exists>res. biking_permitted df = Inr res))
   \<and> (set [''highway'', ''footway''] \<subseteq> set (columns df)
      \<longrightarrow> (\<exists>res. is_separated_path df = Inr res))
   \<and> (columns df \<noteq> []
      \<longrightarrow> (\<exists>res. is_bike_lane df = Inr res) \<and> (\<exists>res. parking_present df = Inr res))
   \<and> (biking_permitted df = Inr (df', a, b) \<longrightarrow>
      mset (index a) + mset (index b) = mset (index df)
      \<and> (distinct (index df) \<longrightarrow> set (index a) \<inter> set (index b) = {})
      \<and> mset (map (\<lambda>(i, r). (i, r(''rule'' := None))) (rows a))
          + mset (map (\<lambda>(i, r). (i, r(''rule'' := None))) (rows b))
          = mset (map (\<lambda>(i, r). (i, r(''rule'' := None))) (rows df)))
   \<and> (is_separated_path df = Inr (df', a, b) \<longrightarrow>
      mset (index a) + mset (index b) = mset (index df)
      \<and> (distinct (index df) \<longrightarrow> set (index a) \<inter> set (index b) = {})
      \<and> mset (map (\<lambda>(i, r). (i, r(''rule'' := None))) (rows a))
          + mset (map (\<lambda>(i, r). (i, r(''rule'' := None))) (rows b))
          = mset (map (\<lambda>(i, r). (i, r(''rule'' := None))) (rows df)))
   \<and> (is_bike_lane df = Inr (a, b) \<longrightarrow>
      mset (index a) + mset (index b) = mset (index df)
      \<and> (distinct (index df) \<longrightarrow> set (index a) \<inter> set (index b) = {})
      \<and> mset (rows a) + mset (rows b) = mset (rows df))
   \<and> (parking_present df = Inr (a, b) \<longrightarrow>
      mset (index a) + mset (index b) = mset (index df)
      \<and> (distinct (index df) \<longrightarrow> set (index a) \<inter> set (index b) = {})
      \<and> mset (rows a) + mset (rows b) = mset (rows df))"
proof (intro conjI impI)
  let ?H = "\<lambda>(i, r). (i, r(''rule'' := None)) :: nat \<times> row"
  {
    assume "set [''bicycle'', ''access'', ''highway'', ''footway''] \<subseteq> set (columns df)"
    then show "\<exists>res. biking_permitted df = Inr res"
      by (intro biking_permitted_total) simp_all
  }
  {
    assume "set [''highway'', ''footway''] \<subseteq> set (columns df)"
    then show "\<exists>res. is_separated_path df = Inr res"
      by (intro is_separated_path_total) simp_all
  }
  show "\<exists>res. is_bike_lane df = Inr res"
    by (rule tag_classifiers_total)
  show "\<exists>res. parking_present df = Inr res"
    by (rule tag_classifiers_total)
  {
    assume "biking_permitted df = Inr (df', a, b)"
    note r = biking_permitted_Inr [OF this]
    let ?F = "\<lambda>p :: nat \<times> row. (fst p, (snd p)(''rule'' \<mapsto> StrV (permission_rule_spec (snd p))))"
    let ?P = "\<lambda>p :: nat \<times> row. permission_rule_spec (snd p) = ''p0''"
    have a: "rows a = map ?F (filter ?P (rows df))" and b: "rows b = map ?F (filter (\<lambda>p. \<not> ?P p) (rows df))"
      using r by simp_all
    show "mset (index a) + mset (index b) = mset (index df)"
      unfolding index_def a b by (rule partition_index) simp_all
    show "set (index a) \<inter> set (index b) = {}" if "distinct (index df)"
      using that unfolding index_def a b by (rule partition_index(2) [rotated 2]) simp_all
    show "mset (map ?H (rows a)) + mset (map ?H (rows b)) = mset (map ?H (rows df))"
      unfolding a b by (rule partition_rows) (simp_all add: case_prod_unfold)
  }
  {
    assume "is_separated_path df = Inr (df', a, b)"
    note r = is_separated_path_Inr [OF this]
    let ?t = "columns_containing df ''cycleway''"
    let ?F = "\<lambda>p :: nat \<times> row. (fst p, (snd p)(''rule'' \<mapsto> StrV (separation_rule_spec ?t (snd p))))"
    let ?G = "\<lambda>p :: nat \<times> row. (fst p, (snd p)(''rule'' := None))"
    let ?P = "\<lambda>p :: nat \<times> row. separation_rule_spec ?t (snd p) \<noteq> ''s0''"
    have a: "rows a = map ?F (filter ?P (rows df))" and b: "rows b = map ?G (filter (\<lambda>p. \<not> ?P p) (rows df))"
      using r by (simp_all add: Let_def)
    show "mset (index a) + mset (index b) = mset (index df)"
      unfolding index_def a b by (rule partition_index) simp_all
    show "set (index a) \<inter> set (index b) = {}" if "distinct (index df)"
      using that unfolding index_def a b by (rule partition_index(2) [rotated 2]) simp_all
    show "mset (map ?H (rows a)) + mset (map ?H (rows b)) = mset (map ?H (rows df))"
      unfolding a b by (rule partition_rows) (simp_all add: case_prod_unfold)
  }
  {
    assume "is_bike_lane df = Inr (a, b)"
    note r = is_bike_lane_Inr [OF this]
    let ?P = "\<lambda>p :: nat \<times> row. lane_detected_spec (columns df) (snd p)"
    have a: "rows a = map id (filter ?P (rows df))" and b: "rows b = map id (filter (\<lambda>p. \<not> ?P p) (rows df))"
      using r by simp_all
    show "mset (index a) + mset (index b) = mset (index df)"
      unfolding index_def a b by (rule partition_index) simp_all
    show "set (index a) \<inter> set (index b) = {}" if "distinct (index df)"
      using that unfolding index_def a b by (rule partition_index(2) [rotated 2]) simp_all
    show "mset (rows a) + mset (rows b) = mset (rows df)"
      using partition_rows [of id id id ?P "rows df"] unfolding a b by simp
  }
  {
    assume "parking_present df = Inr (a, b)"
    note r = parking_present_Inr [OF this]
    let ?P = "\<lambda>p :: nat \<times> row. parking_detected_spec (columns df) (snd p)"
    have a: "rows a = map id (filter ?P (rows df))" and b: "rows b = map id (filter (\<lambda>p. \<not> ?P p) (rows df))"
      using r by simp_all
    show "mset (index a) + mset (index b) = mset (index df)"
      unfolding index_def a b by (rule partition_index) simp_all
    show "set (index a) \<inter> set (index b) = {}" if "distinct (index df)"
      using that unfolding index_def a b by (rule partition_index(2) [rotated 2]) simp_all
    show "mset (rows a) + mset (rows b) = mset (rows df)"
      using partition_rows [of id id id ?P "rows df"] unfolding a b by simp
  }
qed

lemma example_merged_lane:
  "filter (\<lambda>p. lane_detected_spec (columns example_merged) (snd p)) (rows example_merged)
     = [(1, [''highway'' \<mapsto> StrV ''tertiary'', ''cycleway'' \<mapsto> StrV ''lane'',
             ''parking:lane:both'' \<mapsto> LstV [''parallel'', ''no'']])]"
  "filter (\<lambda>p. \<not> lane_detected_spec (columns example_merged) (snd p)) (rows example_merged)
     = [(0, [''highway'' \<mapsto> StrV ''tertiary'', ''cycleway'' \<mapsto> LstV [''lane'', ''track''],
             ''parking:lane:both'' \<mapsto> StrV ''parallel''])]"
  by (simp_all add: example_merged_def lane_detected_spec_def tag_in_def cell_def
      lane_identifiers_def)

lemma example_merged_parking:
  "filter (\<lambda>p. parking_detected_spec (columns example_merged) (snd p)) (rows example_merged)
     = [(0, [''highway'' \<mapsto> StrV ''tertiary'', ''cycleway'' \<mapsto> LstV [''lane'', ''track''],
             ''parking:lane:both'' \<mapsto> StrV ''parallel''])]"
  "filter (\<lambda>p. \<not> parking_detected_spec (columns example_merged) (snd p)) (rows example_merged)
     = [(1, [''highway'' \<mapsto> StrV ''tertiary'', ''cycleway'' \<mapsto> StrV ''lane'',
             ''parking:lane:both'' \<mapsto> LstV [''parallel'', ''no'']])]"
  by (simp_all add: example_merged_def parking_detected_spec_def tag_in_def cell_def
      parking_identifiers_def)

theorem classifiers_partition_witness:
  "\<exists>d1 a1 b1 d2 a2 b2 a3 b3 a4 b4 a5 b5 a6 b6.
     biking_permitted example_edges = Inr (d1, a1, b1)
     \<and> is_separated_path example_edges = Inr (d2, a2, b2)
     \<and> is_bike_lane example_edges = Inr (a3, b3)
     \<and> parking_present example_edges = Inr (a4, b4)
     \<and> distinct (index example_edges)
     \<and> mset (index a1) + mset (index b1) = mset (index example_edges)
     \<and> set (index a1) \<inter> set (index b1) = {}
     \<and> mset (index a2) + mset (index b2) = mset (index example_edges)
     \<and> set (index a2) \<inter> set (index b2) = {}
     \<and> mset (rows a3) + mset (rows b3) = mset (rows example_edges)
     \<and> set (index a3) \<inter> set (index b3) = {}
     \<and> mset (rows a4) + mset (rows b4) = mset (rows example_edges)
     \<and> set (index a4) \<inter> set (index b4) = {}
     \<and> is_bike_lane example_merged = Inr (a5, b5)
     \<and> parking_present example_merged = Inr (a6, b6)
     \<and> index a5 = [1] \<and> index b5 = [0]
     \<and> index a6 = [0] \<and> index b6 = [1]
     \<and> mset (rows a5) + mset (rows b5) = mset (rows example_merged)
     \<and> mset (rows a6) + mset (rows b6) = mset (rows example_merged)"
proof -
  have c4: "set [''bicycle'', ''access'', ''highway'', ''footway''] \<subseteq> set (columns example_edges)"
    and c2: "set [''highway'', ''footway''] \<subseteq> set (columns example_edges)"
    and c0: "columns example_edges \<noteq> []" and cm: "columns example_merged \<noteq> []"
    by (simp_all add: example_edges_def example_merged_def)
  obtain d1 a1 b1 where r1: "biking_permitted example_edges = Inr (d1, a1, b1)"
    using classifiers_partition [of example_edges] c4 by (metis prod_cases3)
  obtain d2 a2 b2 where r2: "is_separated_path example_edges = Inr (d2, a2, b2)"
    using classifiers_partition [of example_edges] c2 by (metis prod_cases3)
  obtain a3 b3 where r3: "is_bike_lane example_edges = Inr (a3, b3)"
    using classifiers_partition [of example_edges] c0 by (metis surj_pair)
  obtain a4 b4 where r4: "parking_present example_edges = Inr (a4, b4)"
    using classifiers_partition [of example_edges] c0 by (metis surj_pair)
  obtain a5 b5 where r5: "is_bike_lane example_merged = Inr (a5, b5)"
    using classifiers_partition [of example_merged] cm by (metis surj_pair)
  obtain a6 b6 where r6: "parking_present example_merged = Inr (a6, b6)"
    using classifiers_partition [of example_merged] cm by (metis surj_pair)
  have d: "distinct (index example_edges)"
    by (simp add: index_def example_edges_def)
  have p1: "mset (index a1) + mset (index b1) = mset (index example_edges)
            \<and> set (index a1) \<inter> set (index b1) = {}"
    using classifiers_partition [of example_edges d1 a1 b1] r1 d by simp
  have p2: "mset (index a2) + mset (index b2) = mset (index example_edges)
            \<and> set (index a2) \<inter> set (index b2) = {}"
    using classifiers_partition [of example_edges d2 a2 b2] r2 d by simp
  have p3: "mset (rows a3) + mset (rows b3) = mset (rows example_edges)
            \<and> set (index a3) \<inter> set (index b3) = {}"
    using classifiers_partition [of example_edges d1 a3 b3] r3 d by simp
  have p4: "mset (rows a4) + mset (rows b4) = mset (rows example_edges)
            \<and> set (index a4) \<inter> set (index b4) = {}"
    using classifiers_partition [of example_edges d1 a4 b4] r4 d by simp
  have i5: "index a5 = [1] \<and> index b5 = [0]"
    using is_bike_lane_Inr [OF r5] by (simp add: index_def example_merged_lane)
  have i6: "index a6 = [0] \<and> index b6 = [1]"
    using parking_present_Inr [OF r6] by (simp add: index_def example_merged_parking)
  have p5: "mset (rows a5) + mset (rows b5) = mset (rows example_merged)"
    using classifiers_partition [of example_merged d1 a5 b5] r5 by simp
  have p6: "mset (rows a6) + mset (rows b6) = mset (rows example_merged)"
    using classifiers_partition [of example_merged d1 a6 b6] r6 by simp
  from r1 r2 r3 r4 d p1 p2 p3 p4 r5 r6 i5 i6 p5 p6 show ?thesis
    by (elim conjE) (intro exI conjI; assumption)
qed

text \<open>
  C1. \<open>biking_permitted\<close> returns on every table that has the four columns it reads, and
  when it returns, the rule it has written into each row is the one
  the priority order p2, p6, p3, p4, p7, p5 of the specification gives, the first predicate
  that holds deciding, and \<open>p0\<close> when none holds; \<open>allowed\<close> are the rows with \<open>p0\<close>,
  \<open>not_allowed\<close> the others. In particular an edge with \<open>bicycle = 'no'\<close> and
  \<open>highway = 'motorway'\<close> is in \<open>not_allowed\<close> with rule \<open>p2\<close>, not \<open>p3\<close>.
\<close>

theorem biking_permitted_priority:
  "(set [''bicycle'', ''access'', ''highway'', ''footway''] \<subseteq> set (columns df)
      \<longrightarrow> (\<exists>res. biking_permitted df = Inr res))
   \<and> (biking_permitted df = Inr (df', allowed, not_allowed) \<longrightarrow>
        rows df' = map (\<lambda>(i, r). (i, r(''rule'' \<mapsto> StrV (permission_rule_spec r)))) (rows df)
        \<and> rows allowed = filter (\<lambda>(i, r). cell r ''rule'' = StrV ''p0'') (rows df')
        \<and> rows not_allowed = filter (\<lambda>(i, r). cell r ''rule'' \<noteq> StrV ''p0'') (rows df')
        \<and> (\<forall>i r. (i, r) \<in> set (rows df) \<and> cell r ''bicycle'' = StrV ''no''
                    \<and> cell r ''highway'' = StrV ''motorway''
               \<longrightarrow> (i, r(''rule'' \<mapsto> StrV ''p2'')) \<in> set (rows not_allowed)))"
proof (intro conjI)
  show "set [''bicycle'', ''access'', ''highway'', ''footway''] \<subseteq> set (columns df)
      \<longrightarrow> (\<exists>res. biking_permitted df = Inr res)"
    by (intro impI biking_permitted_total) simp_all
next
  have p2: "permission_rule_spec r = ''p2''" if "cell r ''bicycle'' = StrV ''no''" for r
    using that by (simp add: permission_rule_spec_def)
  show "biking_permitted df = Inr (df', allowed, not_allowed) \<longrightarrow>
        rows df' = map (\<lambda>(i, r). (i, r(''rule'' \<mapsto> StrV (permission_rule_spec r)))) (rows df)
        \<and> rows allowed = filter (\<lambda>(i, r). cell r ''rule'' = StrV ''p0'') (rows df')
        \<and> rows not_allowed = filter (\<lambda>(i, r). cell r ''rule'' \<noteq> StrV ''p0'') (rows df')
        \<and> (\<forall>i r. (i, r) \<in> set (rows df) \<and> cell r ''bicycle'' = StrV ''no''
                    \<and> cell r ''highway'' = StrV ''motorway''
               \<longrightarrow> (i, r(''rule'' \<mapsto> StrV ''p2'')) \<in> set (rows not_allowed))"
  proof
    assume a: "biking_permitted df = Inr (df', allowed, not_allowed)"
    note r = biking_permitted_Inr [OF a]
    show "rows df' = map (\<lambda>(i, r). (i, r(''rule'' \<mapsto> StrV (permission_rule_spec r)))) (rows df)
        \<and> rows allowed = filter (\<lambda>(i, r). cell r ''rule'' = StrV ''p0'') (rows df')
        \<and> rows not_allowed = filter (\<lambda>(i, r). cell r ''rule'' \<noteq> StrV ''p0'') (rows df')
        \<and> (\<forall>i r. (i, r) \<in> set (rows df) \<and> cell r ''bicycle'' = StrV ''no''
                    \<and> cell r ''highway'' = StrV ''motorway''
               \<longrightarrow> (i, r(''rule'' \<mapsto> StrV ''p2'')) \<in> set (rows not_allowed))"
      using r by (auto simp: case_prod_unfold filter_map comp_def p2 image_iff intro!: bexI)
  qed
qed

theorem biking_permitted_priority_witness:
  "set [''bicycle'', ''access'', ''highway'', ''footway''] \<subseteq> set (columns example_edges)
   \<and> (\<exists>df' allowed not_allowed.
     biking_permitted example_edges = Inr (df', allowed, not_allowed)
     \<and> (1, [''highway'' \<mapsto> StrV ''motorway'', ''bicycle'' \<mapsto> StrV ''no'']) \<in> set (rows example_edges)
     \<and> (1, [''highway'' \<mapsto> StrV ''motorway'', ''bicycle'' \<mapsto> StrV ''no'', ''rule'' \<mapsto> StrV ''p2''])
          \<in> set (rows not_allowed)
     \<and> index allowed = [0, 2] \<and> index not_allowed = [1])"
proof -
  have cols: "set [''bicycle'', ''access'', ''highway'', ''footway''] \<subseteq> set (columns example_edges)"
    by (simp add: example_edges_def)
  with biking_permitted_priority [of example_edges]
  obtain d a b where r: "biking_permitted example_edges = Inr (d, a, b)"
    by (metis prod_cases3)
  have m: "(1, [''highway'' \<mapsto> StrV ''motorway'', ''bicycle'' \<mapsto> StrV ''no'']) \<in> set (rows example_edges)"
    by (simp add: example_edges_def)
  have c: "cell [''highway'' \<mapsto> StrV ''motorway'', ''bicycle'' \<mapsto> StrV ''no''] ''bicycle'' = StrV ''no''
         \<and> cell [''highway'' \<mapsto> StrV ''motorway'', ''bicycle'' \<mapsto> StrV ''no''] ''highway'' = StrV ''motorway''"
    by (simp add: cell_def)
  from r
  have t: "rows d = map (\<lambda>(i, r). (i, r(''rule'' \<mapsto> StrV (permission_rule_spec r)))) (rows example_edges)
        \<and> rows a = filter (\<lambda>(i, r). cell r ''rule'' = StrV ''p0'') (rows d)
        \<and> rows b = filter (\<lambda>(i, r). cell r ''rule'' \<noteq> StrV ''p0'') (rows d)
        \<and> (\<forall>i r. (i, r) \<in> set (rows example_edges) \<and> cell r ''bicycle'' = StrV ''no''
                    \<and> cell r ''highway'' = StrV ''motorway''
               \<longrightarrow> (i, r(''rule'' \<mapsto> StrV ''p2'')) \<in> set (rows b))"
    by (rule biking_permitted_priority [of example_edges d a b, THEN conjunct2, THEN mp])
  then have "(1, [''highway'' \<mapsto> StrV ''motorway'', ''bicycle'' \<mapsto> StrV ''no''](''rule'' \<mapsto> StrV ''p2''))
          \<in> set (rows b)"
    using m c by blast
  then have n: "(1, [''highway'' \<mapsto> StrV ''motorway'', ''bicycle'' \<mapsto> StrV ''no'', ''rule'' \<mapsto> StrV ''p2''])
          \<in> set (rows b)"
    by simp
  have i: "index a = [0, 2] \<and> index b = [1]"
    using t by (simp add: index_def example_edges_def permission_rule_spec_def cell_def)
  from cols r m n i show ?thesis
    by - (rule conjI, assumption, rule exI [of _ d], rule exI [of _ a], rule exI [of _ b], simp)
qed

subsection \<open>The US speed resolver\<close>

text \<open>
  C8. The claim is that \<open>get_max_speed_us\<close> resolves a missing \<open>maxspeed\<close> to 80, 60, 35, 35
  or 25 by the value of \<open>highway\<close>. The function never returns: for a table with a
  residential edge without \<open>maxspeed\<close> it raises \<open>NameError\<close> at the misspelt name
  \<open>resdidential\<close>, and for no table and no parameters does it return one.
\<close>

theorem get_max_speed_us_raises:
  "get_max_speed_us \<lparr>columns = [''maxspeed'', ''highway''],
                     rows = [(0, [''highway'' \<mapsto> StrV ''residential''])]\<rparr> 80 60 35 35 25
     = Inl (NameError ''resdidential'')
   \<and> get_max_speed_us df motorway primary secondary tertiary residential \<noteq> Inr out"
proof
  show "get_max_speed_us \<lparr>columns = [''maxspeed'', ''highway''],
                     rows = [(0, [''highway'' \<mapsto> StrV ''residential''])]\<rparr> 80 60 35 35 25
     = Inl (NameError ''resdidential'')"
    by (simp add: get_max_speed_us_def isna_col_present eq_col_present)
  show "get_max_speed_us df motorway primary secondary tertiary residential \<noteq> Inr out"
    by (simp add: get_max_speed_us_def bind_eq_Inr)
qed

subsection \<open>The normalizers in closed form\<close>

lemma mapM_mapM:
  assumes "mapM f xs = Inr ys" and "mapM g ys = Inr zs"
  shows "zs = map (\<lambda>x. int_value (bind (f x) g)) xs \<and> (\<forall>x\<in>set xs. \<exists>z. bind (f x) g = Inr z)"
  using assms
proof (induction xs arbitrary: ys zs)
  case Nil
  then show ?case by simp
next
  case (Cons x xs)
  then show ?case
    by (auto simp: int_value_def split: sum.splits)
qed

lemma mapM_map: "mapM f (map h xs) = mapM (\<lambda>x. f (h x)) xs"
  by (induction xs) (simp_all split: sum.splits)

lemma mapM_mapM_total:
  assumes "\<forall>x\<in>set xs. \<exists>z. bind (f x) g = Inr z"
  shows "bind (mapM f xs) (mapM g) = Inr (map (\<lambda>x. int_value (bind (f x) g)) xs)"
  using assms
proof (induction xs)
  case Nil
  then show ?case by simp
next
  case (Cons x xs)
  then show ?case
    by (auto simp: int_value_def bind_eq_Inr split: sum.splits)
qed

lemma set_col_map2:
  "set_col \<lparr>columns = cs, rows = map F xs\<rparr> c (map g xs) =
     \<lparr>columns = (if c \<in> set cs then cs else cs @ [c]),
      rows = map (\<lambda>p. (fst (F p), (snd (F p))(c \<mapsto> g p))) xs\<rparr>"
proof -
  have "map (case_prod (\<lambda>(i, r) v. (i, r(c \<mapsto> v)))) (zip (map F xs) (map g xs))
          = map (\<lambda>p. (fst (F p), (snd (F p))(c \<mapsto> g p))) xs"
    by (induction xs) (auto simp: case_prod_unfold)
  then show ?thesis by (simp add: set_col_def)
qed

lemma fillna_map: "fillna (map h xs) d = map (\<lambda>x. if is_missing (h x) then d else h x) xs"
  by (simp add: fillna_def comp_def)

lemma get_lanes_Inr:
  assumes "get_lanes df d = Inr out"
  shows "''lanes'' \<in> set (columns df)
    \<and> (\<forall>p\<in>set (rows df). \<exists>n. lanes_assumed_spec d (cell (snd p) ''lanes'') = Inr n)
    \<and> out = \<lparr>columns = (if ''lanes_assumed'' \<in> set (columns df) then columns df
                        else columns df @ [''lanes_assumed'']),
             rows = map (\<lambda>p. (fst p, (snd p)(''lanes_assumed'' \<mapsto>
                       IntV (int_value (lanes_assumed_spec d (cell (snd p) ''lanes'')))))) (rows df)\<rparr>"
proof -
  from assms obtain arrays maxima where c: "''lanes'' \<in> set (columns df)"
    and a: "mapM np_array_int (map (\<lambda>p. if is_missing (cell (snd p) ''lanes'') then IntV d else cell (snd p) ''lanes'') (rows df)) = Inr arrays"
    and m: "mapM np_max arrays = Inr maxima"
    and o: "out = set_col df ''lanes_assumed'' (map IntV maxima)"
    by (auto simp: get_lanes_def bind_eq_Inr col_eq_Inr fillna_map)
  from mapM_mapM [OF a [unfolded mapM_map] m]
  have "maxima = map (\<lambda>p. int_value (lanes_assumed_spec d (cell (snd p) ''lanes''))) (rows df)"
    and "\<forall>p\<in>set (rows df). \<exists>n. lanes_assumed_spec d (cell (snd p) ''lanes'') = Inr n"
    by (simp_all add: lanes_assumed_spec_def resolve_int_def)
  with c o show ?thesis
    by (simp add: comp_def set_col_map)
qed

lemma get_max_speed_Inr:
  assumes "get_max_speed df n l m p s = Inr out"
  shows "''maxspeed'' \<in> set (columns df) \<and> ''highway'' \<in> set (columns df)
    \<and> (\<forall>x\<in>set (rows df). \<exists>v. maxspeed_assumed_spec n l m p s (cell (snd x) ''maxspeed'') (cell (snd x) ''highway'') = Inr v)
    \<and> out = \<lparr>columns = (if ''maxspeed_assumed'' \<in> set (columns df) then columns df
                        else columns df @ [''maxspeed_assumed'']),
             rows = map (\<lambda>x. (fst x, (snd x)(''maxspeed_assumed'' \<mapsto>
                       IntV (int_value (maxspeed_assumed_spec n l m p s (cell (snd x) ''maxspeed'') (cell (snd x) ''highway'')))))) (rows df)\<rparr>"
proof -
  let ?sel = "\<lambda>x :: nat \<times> row. if cell (snd x) ''maxspeed'' = StrV ''national'' then IntV n
        else if is_missing (cell (snd x) ''maxspeed'') \<and> cell (snd x) ''highway'' = StrV ''motorway'' then IntV m
        else if is_missing (cell (snd x) ''maxspeed'') \<and> cell (snd x) ''highway'' = StrV ''primary'' then IntV p
        else if is_missing (cell (snd x) ''maxspeed'') \<and> cell (snd x) ''highway'' = StrV ''secondary'' then IntV s
        else if is_missing (cell (snd x) ''maxspeed'') then IntV l
        else cell (snd x) ''maxspeed''"
  from assms obtain arrays maxima where c: "''maxspeed'' \<in> set (columns df)" "''highway'' \<in> set (columns df)"
    and a: "mapM np_array_int (map ?sel (rows df)) = Inr arrays"
    and m: "mapM np_max arrays = Inr maxima"
    and o: "out = set_col df ''maxspeed_assumed'' (map IntV maxima)"
    unfolding get_max_speed_def
    by (auto simp: bind_eq_Inr sequence_Cons_eq_Inr sequence_Nil_eq_Inr andR_eq_Inr
        eq_col_eq_Inr isna_col_eq_Inr col_eq_Inr Let_def np_select_Cons_map map2_same)
  have sel: "resolve_int (?sel x) = maxspeed_assumed_spec n l m p s (cell (snd x) ''maxspeed'') (cell (snd x) ''highway'')" for x
    by (auto simp: maxspeed_assumed_spec_def)
  from mapM_mapM [OF a [unfolded mapM_map] m]
  have "maxima = map (\<lambda>x. int_value (resolve_int (?sel x))) (rows df)"
    and "\<forall>x\<in>set (rows df). \<exists>v. resolve_int (?sel x) = Inr v"
    unfolding resolve_int_def by blast+
  with c o show ?thesis
    unfolding sel by (simp add: comp_def set_col_map)
qed

subsection \<open>The scorers in closed form\<close>

lemma cell_cmp_Inr: "cell_cmp op v q = Inr b \<longleftrightarrow> comparable v \<and> b = cmp_holds op v q"
  by (cases v; cases op) (auto simp: cell_cmp_def comparable_def cmp_holds_def split: pyfloat.splits)

lemma cell_cmp_Inl: "cell_cmp op v q = Inl e \<longleftrightarrow> \<not> comparable v \<and> e = TypeError"
  by (cases v) (auto simp: cell_cmp_def comparable_def split: pyfloat.splits)

lemma mapM_Inr_all: "mapM f xs = Inr ys \<Longrightarrow> x \<in> set xs \<Longrightarrow> \<exists>y. f x = Inr y"
  by (induction xs arbitrary: ys) (auto split: sum.splits)

lemma series_cmp_eq_Inr:
  "series_cmp op vs q = Inr bs \<longleftrightarrow> (\<forall>v\<in>set vs. comparable v) \<and> bs = map (\<lambda>v. cmp_holds op v q) vs"
proof
  assume a: "series_cmp op vs q = Inr bs"
  have "comparable v" if "v \<in> set vs" for v
    using mapM_Inr_all [OF a [unfolded series_cmp_def] that] by (auto simp: cell_cmp_Inr)
  moreover have "bs = map (\<lambda>v. cmp_holds op v q) vs"
    using a [unfolded series_cmp_def] by (rule mapM_Inr_map) (simp add: cell_cmp_Inr)
  ultimately show "(\<forall>v\<in>set vs. comparable v) \<and> bs = map (\<lambda>v. cmp_holds op v q) vs"
    by simp
next
  assume a: "(\<forall>v\<in>set vs. comparable v) \<and> bs = map (\<lambda>v. cmp_holds op v q) vs"
  then have "mapM (\<lambda>v. cell_cmp op v q) vs = Inr (map (\<lambda>v. cmp_holds op v q) vs)"
    by (intro mapM_total) (simp add: cell_cmp_Inr)
  with a show "series_cmp op vs q = Inr bs"
    by (simp add: series_cmp_def)
qed

lemma cmp_col_eq_Inr:
  "cmp_col op df c q = Inr bs \<longleftrightarrow>
     c \<in> set (columns df) \<and> (\<forall>p\<in>set (rows df). comparable (cell (snd p) c))
     \<and> bs = map (\<lambda>p. cmp_holds op (cell (snd p) c) q) (rows df)"
  by (auto simp: cmp_col_def bind_eq_Inr col_eq_Inr series_cmp_eq_Inr comp_def)

lemma cmp_holds_IntV [simp]:
  "cmp_holds LE (IntV n) q \<longleftrightarrow> of_int n \<le> q"
  "cmp_holds LT (IntV n) q \<longleftrightarrow> of_int n < q"
  "cmp_holds GE (IntV n) q \<longleftrightarrow> of_int n \<ge> q"
  "cmp_holds GT (IntV n) q \<longleftrightarrow> of_int n > q"
  by (simp_all add: cmp_holds_def cell_cmp_def cmp_rat_def)

lemma comparable_IntV [simp]: "comparable (IntV n)"
  by (simp add: comparable_def)

lemma set_assumed_columns [simp]:
  "set (assumed_columns cs) = insert ''lanes_assumed'' (insert ''maxspeed_assumed'' (set cs))"
  by (auto simp: assumed_columns_def Let_def)

lemma cell_with_assumed [simp]:
  "cell (snd (with_assumed p)) c =
     (if c = ''maxspeed_assumed'' then IntV (speed_of (snd p))
      else if c = ''lanes_assumed'' then IntV (lanes_of (snd p))
      else cell (snd p) c)"
  by (simp add: with_assumed_def)

lemma fst_with_assumed [simp]: "fst (with_assumed p) = fst p"
  by (simp add: with_assumed_def)

lemma resolvers_Inr:
  assumes "get_lanes df 2 = Inr g1" and "get_max_speed g1 40 50 100 80 80 = Inr g"
  shows "g = \<lparr>columns = assumed_columns (columns df), rows = map with_assumed (rows df)\<rparr>
     \<and> ''lanes'' \<in> set (columns df) \<and> ''maxspeed'' \<in> set (columns df) \<and> ''highway'' \<in> set (columns df)
     \<and> (\<forall>p\<in>set (rows df). resolvable (snd p))"
proof -
  note l = get_lanes_Inr [OF assms(1)]
  note m = get_max_speed_Inr [OF assms(2)]
  from l have g1: "g1 = \<lparr>columns = (if ''lanes_assumed'' \<in> set (columns df) then columns df
                        else columns df @ [''lanes_assumed'']),
             rows = map (\<lambda>p. (fst p, (snd p)(''lanes_assumed'' \<mapsto>
                       IntV (int_value (lanes_assumed_spec 2 (cell (snd p) ''lanes'')))))) (rows df)\<rparr>"
    by simp
  from m show ?thesis
    unfolding g1 using l
    by (auto simp: assumed_columns_def Let_def with_assumed_def lanes_of_def speed_of_def resolvable_def
        comp_def split: if_splits)
qed

lemma series_map_map:
  "series_map d (map (\<lambda>p. StrV (f p)) xs) = map (\<lambda>p. case d (f p) of Some n \<Rightarrow> IntV n | None \<Rightarrow> FltV NaN) xs"
  by (simp add: series_map_def comp_def)

lemma assign_lts_eq_Inr:
  "assign_lts \<lparr>columns = cs, rows = map F xs\<rparr> d = Inr out \<longleftrightarrow>
     ''rule'' \<in> set cs
     \<and> out = set_col \<lparr>columns = cs, rows = map F xs\<rparr> ''lts''
               (series_map d (map (\<lambda>p. cell (snd (F p)) ''rule'') xs))"
  by (auto simp: assign_lts_def bind_eq_Inr col_eq_Inr comp_def)

lemma with_parking_Inr:
  assumes "bike_lane_analysis_with_parking df = Inr out"
  shows "rows out =
      map (\<lambda>p. (fst p, (snd (with_assumed p))
            (''rule'' \<mapsto> StrV (fst (lane_parking_spec (lanes_of (snd p)) (speed_of (snd p))
                                  (cell (snd p) ''width'') (cell (snd p) ''highway''))),
             ''lts'' \<mapsto> IntV (snd (lane_parking_spec (lanes_of (snd p)) (speed_of (snd p))
                                  (cell (snd p) ''width'') (cell (snd p) ''highway''))))))
        (rows df)
    \<and> (\<forall>p\<in>set (rows df). resolvable (snd p))"
proof -
  from assms obtain g1 g conds rule where gl: "get_lanes df 2 = Inr g1"
    and gm: "get_max_speed g1 40 50 100 80 80 = Inr g"
    and sq: "sequence
       [andR (cmp_col GE g ''lanes_assumed'' 3) (cmp_col LE g ''maxspeed_assumed'' 55),
        cmp_col LE g ''width'' 4.1,
        cmp_col LE g ''width'' 4.25,
        andR (cmp_col LE g ''width'' 4.5)
             (andR (cmp_col LE g ''maxspeed_assumed'' 40) (eq_col g ''highway'' ''residential'')),
        andR (cmp_col GT g ''maxspeed_assumed'' 40) (cmp_col LE g ''maxspeed_assumed'' 50),
        andR (cmp_col GT g ''maxspeed_assumed'' 50) (cmp_col LE g ''maxspeed_assumed'' 55),
        cmp_col GT g ''maxspeed_assumed'' 55,
        ne_col g ''highway'' ''residential''] = Inr conds"
    and ns: "np_select conds (map StrV [''b2'', ''b3'', ''b4'', ''b5'', ''b6'', ''b7'', ''b8'', ''b9''])
               (broadcast g (StrV ''b1'')) = Inr rule"
    and al: "assign_lts (set_col g ''rule'' rule) rule_dict_with_parking = Inr out"
    unfolding bike_lane_analysis_with_parking_def by (auto simp: bind_eq_Inr Let_def)
  note r = resolvers_Inr [OF gl gm]
  then have g: "g = \<lparr>columns = assumed_columns (columns df), rows = map with_assumed (rows df)\<rparr>"
    by simp
  from sq have conds: "conds =
      [map (\<lambda>p. 3 \<le> lanes_of (snd p) \<and> speed_of (snd p) \<le> 55) (rows df),
       map (\<lambda>p. cmp_holds LE (cell (snd p) ''width'') 4.1) (rows df),
       map (\<lambda>p. cmp_holds LE (cell (snd p) ''width'') 4.25) (rows df),
       map (\<lambda>p. cmp_holds LE (cell (snd p) ''width'') 4.5 \<and> speed_of (snd p) \<le> 40
                  \<and> cell (snd p) ''highway'' = StrV ''residential'') (rows df),
       map (\<lambda>p. 40 < speed_of (snd p) \<and> speed_of (snd p) \<le> 50) (rows df),
       map (\<lambda>p. 50 < speed_of (snd p) \<and> speed_of (snd p) \<le> 55) (rows df),
       map (\<lambda>p. 55 < speed_of (snd p)) (rows df),
       map (\<lambda>p. cell (snd p) ''highway'' \<noteq> StrV ''residential'') (rows df)]"
    unfolding g
    by (auto simp: sequence_Cons_eq_Inr sequence_Nil_eq_Inr andR_eq_Inr cmp_col_eq_Inr eq_col_eq_Inr
        ne_col_eq_Inr comp_def)
  from ns have rule: "rule = map (\<lambda>p. StrV (fst (lane_parking_spec (lanes_of (snd p)) (speed_of (snd p))
                                  (cell (snd p) ''width'') (cell (snd p) ''highway'')))) (rows df)"
    unfolding conds g
    by (auto simp: np_select_Cons_map map2_same broadcast_map comp_def lane_parking_spec_def)
  from al have "out = set_col (set_col g ''rule'' rule) ''lts''
      (map (\<lambda>p. IntV (snd (lane_parking_spec (lanes_of (snd p)) (speed_of (snd p))
                                  (cell (snd p) ''width'') (cell (snd p) ''highway'')))) (rows df))"
    unfolding rule g
    by (auto simp: set_col_map2 assign_lts_eq_Inr series_map_map lane_parking_spec_def
        rule_dict_with_parking_def)
  then show ?thesis
    using r unfolding rule g by (simp add: set_col_map2)
qed

lemma no_parking_Inr:
  assumes "bike_lane_analysis_no_parking df = Inr out"
  shows "rows out =
      map (\<lambda>p. let w = (if is_str (cell (snd p) ''width'') then FltV NaN else cell (snd p) ''width'');
                   s = lane_no_parking_spec (lanes_of (snd p)) (speed_of (snd p)) w (cell (snd p) ''highway'')
               in (fst p, (snd (with_assumed p))(''width'' \<mapsto> w, ''rule'' \<mapsto> StrV (fst s), ''lts'' \<mapsto> IntV (snd s))))
        (rows df)
    \<and> (\<forall>p\<in>set (rows df). resolvable (snd p))"
proof -
  from assms obtain g1 g2 conds rule where gl: "get_lanes df 2 = Inr g1"
    and gm: "get_max_speed g1 40 50 100 80 80 = Inr g2"
    and w: "''width'' \<in> set (columns g2)"
    and sq: "sequence
       [andR (cmp_col GE (set_col g2 ''width'' (map (\<lambda>x. if is_str x then FltV NaN else x) (map (\<lambda>p. cell (snd p) ''width'') (rows g2)))) ''lanes_assumed'' 3)
             (cmp_col LE (set_col g2 ''width'' (map (\<lambda>x. if is_str x then FltV NaN else x) (map (\<lambda>p. cell (snd p) ''width'') (rows g2)))) ''maxspeed_assumed'' 65),
        andR (lift (map is_float) (col (set_col g2 ''width'' (map (\<lambda>x. if is_str x then FltV NaN else x) (map (\<lambda>p. cell (snd p) ''width'') (rows g2)))) ''width''))
             (cmp_col LE (set_col g2 ''width'' (map (\<lambda>x. if is_str x then FltV NaN else x) (map (\<lambda>p. cell (snd p) ''width'') (rows g2)))) ''width'' 1.7),
        andR (cmp_col GT (set_col g2 ''width'' (map (\<lambda>x. if is_str x then FltV NaN else x) (map (\<lambda>p. cell (snd p) ''width'') (rows g2)))) ''maxspeed_assumed'' 50)
             (cmp_col LE (set_col g2 ''width'' (map (\<lambda>x. if is_str x then FltV NaN else x) (map (\<lambda>p. cell (snd p) ''width'') (rows g2)))) ''maxspeed_assumed'' 65),
        cmp_col GT (set_col g2 ''width'' (map (\<lambda>x. if is_str x then FltV NaN else x) (map (\<lambda>p. cell (snd p) ''width'') (rows g2)))) ''maxspeed_assumed'' 65,
        ne_col (set_col g2 ''width'' (map (\<lambda>x. if is_str x then FltV NaN else x) (map (\<lambda>p. cell (snd p) ''width'') (rows g2)))) ''highway'' ''residential''] = Inr conds"
    and ns: "np_select conds (map StrV [''c3'', ''c4'', ''c5'', ''c6'', ''c7''])
               (broadcast (set_col g2 ''width'' (map (\<lambda>x. if is_str x then FltV NaN else x) (map (\<lambda>p. cell (snd p) ''width'') (rows g2)))) (StrV ''c1'')) = Inr rule"
    and al: "assign_lts (set_col (set_col g2 ''width'' (map (\<lambda>x. if is_str x then FltV NaN else x) (map (\<lambda>p. cell (snd p) ''width'') (rows g2)))) ''rule'' rule) rule_dict_no_parking = Inr out"
    unfolding bike_lane_analysis_no_parking_def by (auto simp: bind_eq_Inr Let_def col_eq_Inr)
  note r = resolvers_Inr [OF gl gm]
  then have g2: "g2 = \<lparr>columns = assumed_columns (columns df), rows = map with_assumed (rows df)\<rparr>"
    by simp
  define W where "W = (\<lambda>p :: nat \<times> row. if is_str (cell (snd p) ''width'') then FltV NaN else cell (snd p) ''width'')"
  define g where "g = \<lparr>columns = assumed_columns (columns df),
       rows = map (\<lambda>p. (fst p, (snd (with_assumed p))(''width'' \<mapsto> W p))) (rows df)\<rparr>"
  have gw: "set_col g2 ''width'' (map (\<lambda>x. if is_str x then FltV NaN else x) (map (\<lambda>p. cell (snd p) ''width'') (rows g2))) = g"
    using w unfolding g2 g_def W_def by (simp add: comp_def set_col_map2)
  from sq have conds: "conds =
      [map (\<lambda>p. 3 \<le> lanes_of (snd p) \<and> speed_of (snd p) \<le> 65) (rows df),
       map (\<lambda>p. is_float (W p) \<and> cmp_holds LE (W p) 1.7) (rows df),
       map (\<lambda>p. 50 < speed_of (snd p) \<and> speed_of (snd p) \<le> 65) (rows df),
       map (\<lambda>p. 65 < speed_of (snd p)) (rows df),
       map (\<lambda>p. cell (snd p) ''highway'' \<noteq> StrV ''residential'') (rows df)]"
    unfolding gw unfolding g_def
    by (auto simp: sequence_Cons_eq_Inr sequence_Nil_eq_Inr andR_eq_Inr cmp_col_eq_Inr eq_col_eq_Inr
        ne_col_eq_Inr col_eq_Inr lift_eq_Inr comp_def)
  from ns have rule: "rule = map (\<lambda>p. StrV (fst (lane_no_parking_spec (lanes_of (snd p)) (speed_of (snd p))
                                  (W p) (cell (snd p) ''highway'')))) (rows df)"
    unfolding conds gw unfolding g_def
    by (auto simp: np_select_Cons_map map2_same broadcast_map comp_def lane_no_parking_spec_def)
  from al have "out = set_col (set_col g ''rule'' rule) ''lts''
      (map (\<lambda>p. IntV (snd (lane_no_parking_spec (lanes_of (snd p)) (speed_of (snd p))
                                  (W p) (cell (snd p) ''highway'')))) (rows df))"
    unfolding gw unfolding rule g_def
    by (auto simp: set_col_map2 assign_lts_eq_Inr series_map_map lane_no_parking_spec_def
        rule_dict_no_parking_def)
  then show ?thesis
    using r unfolding rule g_def W_def by (simp add: set_col_map2 Let_def)
qed

lemma mixed_traffic_Inr:
  assumes "mixed_traffic df = Inr out"
  shows "rows out =
      map (\<lambda>p. let m = mixed_rule_spec (lanes_of (snd p)) (speed_of (snd p)) (cell (snd p) ''motor_vehicle'')
                        (cell (snd p) ''highway'') (cell (snd p) ''footway'') (cell (snd p) ''service'')
               in (fst p, (snd (with_assumed p))
                    (''rule'' \<mapsto> StrV m,
                     ''lts'' \<mapsto> (case rule_dict_mixed m of Some n \<Rightarrow> IntV n | None \<Rightarrow> FltV NaN))))
        (rows df)
    \<and> (\<forall>p\<in>set (rows df). resolvable (snd p))"
proof -
  from assms obtain g1 g conds rule where gl: "get_lanes df 2 = Inr g1"
    and gm: "get_max_speed g1 40 50 100 80 80 = Inr g"
    and sq: "sequence
       [eq_col g ''motor_vehicle'' ''no'',
        eq_col g ''highway'' ''pedestrian'',
        andR (eq_col g ''highway'' ''footway'') (eq_col g ''footway'' ''crossing''),
        andR (eq_col g ''highway'' ''service'') (eq_col g ''service'' ''alley''),
        eq_col g ''highway'' ''track'',
        andR (andR (cmp_col LE g ''maxspeed_assumed'' 50) (eq_col g ''highway'' ''service''))
             (eq_col g ''service'' ''parking_aisle''),
        andR (andR (cmp_col LE g ''maxspeed_assumed'' 50) (eq_col g ''highway'' ''service''))
             (eq_col g ''service'' ''driveway''),
        andR (cmp_col LE g ''maxspeed_assumed'' 35) (eq_col g ''highway'' ''service''),
        andR (andR (cmp_col LE g ''maxspeed_assumed'' 40) (cmp_col LE g ''lanes_assumed'' 3))
             (eq_col g ''highway'' ''residential''),
        andR (cmp_col LE g ''maxspeed_assumed'' 40) (cmp_col LE g ''lanes_assumed'' 3),
        andR (cmp_col LE g ''maxspeed_assumed'' 40) (cmp_col LE g ''lanes_assumed'' 5),
        andR (cmp_col LE g ''maxspeed_assumed'' 40) (cmp_col GT g ''lanes_assumed'' 5),
        andR (andR (cmp_col LE g ''maxspeed_assumed'' 50) (cmp_col LT g ''lanes_assumed'' 3))
             (eq_col g ''highway'' ''residential''),
        andR (cmp_col LE g ''maxspeed_assumed'' 50) (cmp_col LE g ''lanes_assumed'' 3),
        andR (cmp_col LE g ''maxspeed_assumed'' 50) (cmp_col GT g ''lanes_assumed'' 3),
        cmp_col GT g ''maxspeed_assumed'' 50] = Inr conds"
    and ns: "np_select conds (map StrV [''m17'', ''m13'', ''m14'', ''m2'', ''m15'', ''m3'', ''m4'', ''m16'', ''m5'', ''m6'',
                            ''m7'', ''m8'', ''m9'', ''m10'', ''m11'', ''m12''])
               (broadcast g (StrV ''m0'')) = Inr rule"
    and al: "assign_lts (set_col g ''rule'' rule) rule_dict_mixed = Inr out"
    unfolding mixed_traffic_def by (auto simp: bind_eq_Inr Let_def)
  note r = resolvers_Inr [OF gl gm]
  then have g: "g = \<lparr>columns = assumed_columns (columns df), rows = map with_assumed (rows df)\<rparr>"
    by simp
  define mv hw fw sv where "mv = (\<lambda>p :: nat \<times> row. cell (snd p) ''motor_vehicle'')"
    and "hw = (\<lambda>p :: nat \<times> row. cell (snd p) ''highway'')"
    and "fw = (\<lambda>p :: nat \<times> row. cell (snd p) ''footway'')"
    and "sv = (\<lambda>p :: nat \<times> row. cell (snd p) ''service'')"
  define S L where "S = (\<lambda>p :: nat \<times> row. speed_of (snd p))" and "L = (\<lambda>p :: nat \<times> row. lanes_of (snd p))"
  from sq have conds: "conds =
      [map (\<lambda>p. mv p = StrV ''no'') (rows df),
       map (\<lambda>p. hw p = StrV ''pedestrian'') (rows df),
       map (\<lambda>p. hw p = StrV ''footway'' \<and> fw p = StrV ''crossing'') (rows df),
       map (\<lambda>p. hw p = StrV ''service'' \<and> sv p = StrV ''alley'') (rows df),
       map (\<lambda>p. hw p = StrV ''track'') (rows df),
       map (\<lambda>p. (S p \<le> 50 \<and> hw p = StrV ''service'') \<and> sv p = StrV ''parking_aisle'') (rows df),
       map (\<lambda>p. (S p \<le> 50 \<and> hw p = StrV ''service'') \<and> sv p = StrV ''driveway'') (rows df),
       map (\<lambda>p. S p \<le> 35 \<and> hw p = StrV ''service'') (rows df),
       map (\<lambda>p. (S p \<le> 40 \<and> L p \<le> 3) \<and> hw p = StrV ''residential'') (rows df),
       map (\<lambda>p. S p \<le> 40 \<and> L p \<le> 3) (rows df),
       map (\<lambda>p. S p \<le> 40 \<and> L p \<le> 5) (rows df),
       map (\<lambda>p. S p \<le> 40 \<and> 5 < L p) (rows df),
       map (\<lambda>p. (S p \<le> 50 \<and> L p < 3) \<and> hw p = StrV ''residential'') (rows df),
       map (\<lambda>p. S p \<le> 50 \<and> L p \<le> 3) (rows df),
       map (\<lambda>p. S p \<le> 50 \<and> 3 < L p) (rows df),
       map (\<lambda>p. 50 < S p) (rows df)]"
    unfolding g mv_def hw_def fw_def sv_def S_def L_def
    by (simp add: sequence_Cons_eq_Inr sequence_Nil_eq_Inr andR_eq_Inr cmp_col_eq_Inr eq_col_eq_Inr
        comp_def)
  have spec: "(if mv p = StrV ''no'' then StrV ''m17''
      else if hw p = StrV ''pedestrian'' then StrV ''m13''
      else if hw p = StrV ''footway'' \<and> fw p = StrV ''crossing'' then StrV ''m14''
      else if hw p = StrV ''service'' \<and> sv p = StrV ''alley'' then StrV ''m2''
      else if hw p = StrV ''track'' then StrV ''m15''
      else if S p \<le> 50 \<and> hw p = StrV ''service'' \<and> sv p = StrV ''parking_aisle'' then StrV ''m3''
      else if S p \<le> 50 \<and> hw p = StrV ''service'' \<and> sv p = StrV ''driveway'' then StrV ''m4''
      else if S p \<le> 35 \<and> hw p = StrV ''service'' then StrV ''m16''
      else if S p \<le> 40 \<and> L p \<le> 3 \<and> hw p = StrV ''residential'' then StrV ''m5''
      else if S p \<le> 40 \<and> L p \<le> 3 then StrV ''m6''
      else if S p \<le> 40 \<and> L p \<le> 5 then StrV ''m7''
      else if S p \<le> 40 \<and> 5 < L p then StrV ''m8''
      else if S p \<le> 50 \<and> L p < 3 \<and> hw p = StrV ''residential'' then StrV ''m9''
      else if S p \<le> 50 \<and> L p \<le> 3 then StrV ''m10''
      else if S p \<le> 50 \<and> 3 < L p then StrV ''m11''
      else if 50 < S p then StrV ''m12''
      else StrV ''m0'') = StrV (mixed_rule_spec (L p) (S p) (mv p) (hw p) (fw p) (sv p))" for p
    unfolding mixed_rule_spec_def by (simp only: if_distrib [of StrV] gt_ex simp_thms)
  from ns have rule: "rule = map (\<lambda>p. StrV (mixed_rule_spec (L p) (S p) (mv p) (hw p) (fw p) (sv p))) (rows df)"
    unfolding conds g
    by (simp add: np_select_Cons_map map2_same broadcast_map comp_def del: map_eq_conv)
       (simp only: spec)
  from al have "out = set_col (set_col g ''rule'' rule) ''lts''
      (map (\<lambda>p. case rule_dict_mixed (mixed_rule_spec (L p) (S p) (mv p) (hw p) (fw p) (sv p)) of
                   Some n \<Rightarrow> IntV n | None \<Rightarrow> FltV NaN) (rows df))"
    unfolding rule g
    by (simp add: set_col_map2 assign_lts_eq_Inr series_map_map comp_def)
  then show ?thesis
    using r unfolding rule g mv_def hw_def fw_def sv_def S_def L_def by (simp add: set_col_map2 Let_def)
qed

subsection \<open>When the normalizers and the scorers return\<close>

lemma get_lanes_total:
  assumes "''lanes'' \<in> set (columns df)"
    and "\<forall>p\<in>set (rows df). \<exists>n. lanes_assumed_spec d (cell (snd p) ''lanes'') = Inr n"
  shows "\<exists>out. get_lanes df d = Inr out"
proof -
  have "\<forall>p\<in>set (rows df). \<exists>z. bind (np_array_int (if is_missing (cell (snd p) ''lanes'') then IntV d
                                                   else cell (snd p) ''lanes'')) np_max = Inr z"
    using assms(2) by (simp add: lanes_assumed_spec_def resolve_int_def)
  from mapM_mapM_total [OF this] obtain arrays maxima where
    "mapM (\<lambda>p. np_array_int (if is_missing (cell (snd p) ''lanes'') then IntV d else cell (snd p) ''lanes'')) (rows df) = Inr arrays"
    "mapM np_max arrays = Inr maxima"
    by (auto simp: bind_eq_Inr)
  then show ?thesis
    using assms(1) by (simp add: get_lanes_def col_present fillna_map mapM_map)
qed

lemma get_max_speed_total:
  assumes "''maxspeed'' \<in> set (columns df)" and "''highway'' \<in> set (columns df)"
    and "\<forall>x\<in>set (rows df). \<exists>v. maxspeed_assumed_spec n l m p s (cell (snd x) ''maxspeed'') (cell (snd x) ''highway'') = Inr v"
  shows "\<exists>out. get_max_speed df n l m p s = Inr out"
proof -
  let ?sel = "\<lambda>x :: nat \<times> row. if cell (snd x) ''maxspeed'' = StrV ''national'' then IntV n
        else if is_missing (cell (snd x) ''maxspeed'') \<and> cell (snd x) ''highway'' = StrV ''motorway'' then IntV m
        else if is_missing (cell (snd x) ''maxspeed'') \<and> cell (snd x) ''highway'' = StrV ''primary'' then IntV p
        else if is_missing (cell (snd x) ''maxspeed'') \<and> cell (snd x) ''highway'' = StrV ''secondary'' then IntV s
        else if is_missing (cell (snd x) ''maxspeed'') then IntV l
        else cell (snd x) ''maxspeed''"
  have sel: "resolve_int (?sel x) = maxspeed_assumed_spec n l m p s (cell (snd x) ''maxspeed'') (cell (snd x) ''highway'')" for x
    by (auto simp: maxspeed_assumed_spec_def)
  have "\<forall>x\<in>set (rows df). \<exists>z. bind (np_array_int (?sel x)) np_max = Inr z"
    using assms(3) unfolding sel [symmetric] resolve_int_def by blast
  from mapM_mapM_total [OF this] obtain arrays maxima where
    "mapM (\<lambda>x. np_array_int (?sel x)) (rows df) = Inr arrays" "mapM np_max arrays = Inr maxima"
    by (auto simp: bind_eq_Inr)
  then show ?thesis
    using assms(1,2)
    by (simp add: get_max_speed_def col_present eq_col_present isna_col_present map2_same mapM_map Let_def)
qed

lemma resolvers_total:
  assumes "''lanes'' \<in> set (columns df)" "''maxspeed'' \<in> set (columns df)" "''highway'' \<in> set (columns df)"
    and "\<forall>p\<in>set (rows df). resolvable (snd p)"
  shows "bind (get_lanes df 2) (\<lambda>g1. bind (get_max_speed g1 40 50 100 80 80) f)
           = f \<lparr>columns = assumed_columns (columns df), rows = map with_assumed (rows df)\<rparr>"
proof -
  from get_lanes_total [OF assms(1), of 2] assms(4)
  obtain g1 where g1: "get_lanes df 2 = Inr g1"
    by (auto simp: resolvable_def)
  note l = get_lanes_Inr [OF g1]
  from l have g1d: "g1 = \<lparr>columns = (if ''lanes_assumed'' \<in> set (columns df) then columns df
                        else columns df @ [''lanes_assumed'']),
             rows = map (\<lambda>p. (fst p, (snd p)(''lanes_assumed'' \<mapsto>
                       IntV (int_value (lanes_assumed_spec 2 (cell (snd p) ''lanes'')))))) (rows df)\<rparr>"
    by simp
  have "\<exists>g. get_max_speed g1 40 50 100 80 80 = Inr g"
    using assms unfolding g1d by (intro get_max_speed_total) (auto simp: resolvable_def)
  then obtain g where g: "get_max_speed g1 40 50 100 80 80 = Inr g" ..
  from resolvers_Inr [OF g1 g] g1 g show ?thesis
    by simp
qed

lemma cmp_col_present:
  "c \<in> set (columns df) \<Longrightarrow> \<forall>p\<in>set (rows df). comparable (cell (snd p) c) \<Longrightarrow>
     cmp_col op df c q = Inr (map (\<lambda>p. cmp_holds op (cell (snd p) c) q) (rows df))"
  by (simp add: cmp_col_eq_Inr)

lemma np_select_Cons_Inr [simp]:
  "np_select cs vs d = Inr rest \<Longrightarrow>
     np_select (c # cs) (v # vs) d = Inr (map (case_prod (\<lambda>b r. if b then v else r)) (zip c rest))"
  by simp

lemma with_parking_total:
  assumes "''lanes'' \<in> set (columns df)" "''maxspeed'' \<in> set (columns df)" "''highway'' \<in> set (columns df)"
    "''width'' \<in> set (columns df)"
    and "\<forall>p\<in>set (rows df). resolvable (snd p) \<and> comparable (cell (snd p) ''width'')"
  shows "\<exists>out. bike_lane_analysis_with_parking df = Inr out"
  using assms unfolding bike_lane_analysis_with_parking_def
  by (simp add: resolvers_total cmp_col_present eq_col_present ne_col_present comp_def Let_def
      map2_same broadcast_map assign_lts_def col_present set_col_map2)

lemma no_parking_total:
  assumes "''lanes'' \<in> set (columns df)" "''maxspeed'' \<in> set (columns df)" "''highway'' \<in> set (columns df)"
    "''width'' \<in> set (columns df)"
    and "\<forall>p\<in>set (rows df). resolvable (snd p) \<and> (\<forall>ss. cell (snd p) ''width'' \<noteq> LstV ss)"
  shows "\<exists>out. bike_lane_analysis_no_parking df = Inr out"
proof -
  have c: "comparable (if is_str v then FltV NaN else v)" if "\<forall>ss. v \<noteq> LstV ss" for v
    using that by (cases v) (simp_all add: comparable_def is_str_def)
  show ?thesis
    using assms unfolding bike_lane_analysis_no_parking_def
    by (simp add: resolvers_total cmp_col_present eq_col_present ne_col_present comp_def Let_def
      map2_same broadcast_map assign_lts_def col_present set_col_map2 c)
qed

lemma mixed_traffic_total:
  assumes "''lanes'' \<in> set (columns df)" "''maxspeed'' \<in> set (columns df)" "''highway'' \<in> set (columns df)"
    "''motor_vehicle'' \<in> set (columns df)" "''footway'' \<in> set (columns df)" "''service'' \<in> set (columns df)"
    and "\<forall>p\<in>set (rows df). resolvable (snd p)"
  shows "\<exists>out. mixed_traffic df = Inr out"
  using assms unfolding mixed_traffic_def
  by (simp add: resolvers_total cmp_col_present eq_col_present ne_col_present comp_def Let_def
      map2_same broadcast_map assign_lts_def col_present set_col_map2)

subsection \<open>The lane and parking scorer\<close>

lemma list_all2_rows: "(\<And>p. p \<in> set xs \<Longrightarrow> R p (F p)) \<Longrightarrow> list_all2 R xs (map F xs)"
  by (simp add: list_all2_map2 list_all2_same)

lemma resolvable_values:
  assumes "resolvable r"
  shows "lanes_assumed_spec 2 (cell r ''lanes'') = Inr (lanes_of r)
    \<and> maxspeed_assumed_spec 40 50 100 80 80 (cell r ''maxspeed'') (cell r ''highway'') = Inr (speed_of r)"
  using assms by (auto simp: resolvable_def lanes_of_def speed_of_def int_value_def)

text \<open>
  C4. \<open>bike_lane_analysis_with_parking\<close> returns on every table that has the four columns
  it reads, whose lanes and speeds resolve to integers and whose widths compare with a number;
  and when it returns, every row of the result is the row
  of the input at the same place, with the resolved \<open>lanes_assumed\<close> and \<open>maxspeed_assumed\<close>
  and with the rule and the LTS that the priority order of the specification gives for them:
  b2 with LTS 3, b3 with LTS 3, b4 with LTS 2, b5 with LTS 2, b6 with LTS 2, b7 with LTS 3, b8
  with LTS 4, b9 with LTS 3, the first whose condition holds, and b1 with LTS 1 otherwise.
\<close>

theorem with_parking_cascade:
  "(set [''lanes'', ''maxspeed'', ''highway'', ''width''] \<subseteq> set (columns df)
     \<and> (\<forall>(i, r)\<in>set (rows df).
           (\<exists>L. lanes_assumed_spec 2 (cell r ''lanes'') = Inr L)
           \<and> (\<exists>S. maxspeed_assumed_spec 40 50 100 80 80 (cell r ''maxspeed'') (cell r ''highway'') = Inr S)
           \<and> comparable (cell r ''width''))
      \<longrightarrow> (\<exists>out. bike_lane_analysis_with_parking df = Inr out))
   \<and> (bike_lane_analysis_with_parking df = Inr out \<longrightarrow>
        list_all2
          (\<lambda>(i, r) (j, r'). j = i \<and>
             (\<exists>L S. lanes_assumed_spec 2 (cell r ''lanes'') = Inr L
                \<and> maxspeed_assumed_spec 40 50 100 80 80 (cell r ''maxspeed'') (cell r ''highway'') = Inr S
                \<and> r' = r(''lanes_assumed'' \<mapsto> IntV L, ''maxspeed_assumed'' \<mapsto> IntV S,
                          ''rule'' \<mapsto> StrV (fst (lane_parking_spec L S (cell r ''width'') (cell r ''highway''))),
                          ''lts'' \<mapsto> IntV (snd (lane_parking_spec L S (cell r ''width'') (cell r ''highway''))))))
          (rows df) (rows out))"
proof (intro conjI impI)
  assume "set [''lanes'', ''maxspeed'', ''highway'', ''width''] \<subseteq> set (columns df)
     \<and> (\<forall>(i, r)\<in>set (rows df).
           (\<exists>L. lanes_assumed_spec 2 (cell r ''lanes'') = Inr L)
           \<and> (\<exists>S. maxspeed_assumed_spec 40 50 100 80 80 (cell r ''maxspeed'') (cell r ''highway'') = Inr S)
           \<and> comparable (cell r ''width''))"
  then show "\<exists>out. bike_lane_analysis_with_parking df = Inr out"
    by (intro with_parking_total) (auto simp: resolvable_def)
next
  assume a: "bike_lane_analysis_with_parking df = Inr out"
  note c = with_parking_Inr [OF a]
  show "list_all2
          (\<lambda>(i, r) (j, r'). j = i \<and>
             (\<exists>L S. lanes_assumed_spec 2 (cell r ''lanes'') = Inr L
                \<and> maxspeed_assumed_spec 40 50 100 80 80 (cell r ''maxspeed'') (cell r ''highway'') = Inr S
                \<and> r' = r(''lanes_assumed'' \<mapsto> IntV L, ''maxspeed_assumed'' \<mapsto> IntV S,
                          ''rule'' \<mapsto> StrV (fst (lane_parking_spec L S (cell r ''width'') (cell r ''highway''))),
                          ''lts'' \<mapsto> IntV (snd (lane_parking_spec L S (cell r ''width'') (cell r ''highway''))))))
          (rows df) (rows out)"
    unfolding conjunct1 [OF c]
  proof (rule list_all2_rows)
    fix p
    assume "p \<in> set (rows df)"
    with c have "resolvable (snd p)"
      by simp
    from resolvable_values [OF this]
    show "(case p of (i, r) \<Rightarrow> \<lambda>(j, r'). j = i \<and>
        (\<exists>L S. lanes_assumed_spec 2 (cell r ''lanes'') = Inr L
           \<and> maxspeed_assumed_spec 40 50 100 80 80 (cell r ''maxspeed'') (cell r ''highway'') = Inr S
           \<and> r' = r(''lanes_assumed'' \<mapsto> IntV L, ''maxspeed_assumed'' \<mapsto> IntV S,
                     ''rule'' \<mapsto> StrV (fst (lane_parking_spec L S (cell r ''width'') (cell r ''highway''))),
                     ''lts'' \<mapsto> IntV (snd (lane_parking_spec L S (cell r ''width'') (cell r ''highway''))))))
       (fst p, (snd (with_assumed p))
            (''rule'' \<mapsto> StrV (fst (lane_parking_spec (lanes_of (snd p)) (speed_of (snd p))
                                  (cell (snd p) ''width'') (cell (snd p) ''highway''))),
             ''lts'' \<mapsto> IntV (snd (lane_parking_spec (lanes_of (snd p)) (speed_of (snd p))
                                  (cell (snd p) ''width'') (cell (snd p) ''highway'')))))"
      by (simp add: case_prod_unfold with_assumed_def)
  qed
qed

lemma example_edges_resolved:
  "lanes_assumed_spec 2 (FltV NaN) = Inr 2"
  "lanes_assumed_spec 2 (StrV ''2'') = Inr 2"
  "maxspeed_assumed_spec 40 50 100 80 80 (FltV NaN) (StrV ''residential'') = Inr 50"
  "maxspeed_assumed_spec 40 50 100 80 80 (FltV NaN) (StrV ''motorway'') = Inr 100"
  "maxspeed_assumed_spec 40 50 100 80 80 (StrV ''50'') (StrV ''tertiary'') = Inr 50"
  by code_simp+

lemma example_edges_resolvable: "\<forall>p\<in>set (rows example_edges). resolvable (snd p)"
  by (simp add: example_edges_def resolvable_def cell_def example_edges_resolved)

lemma example_edges_width: "\<forall>p\<in>set (rows example_edges). comparable (cell (snd p) ''width'')"
  by (simp add: example_edges_def cell_def comparable_def)

theorem with_parking_cascade_witness:
  "\<exists>out. bike_lane_analysis_with_parking example_edges = Inr out
     \<and> map (\<lambda>(i, r). (i, cell r ''rule'', cell r ''lts'')) (rows out)
         = [(0, StrV ''b6'', IntV 2), (1, StrV ''b8'', IntV 4), (2, StrV ''b4'', IntV 2)]"
proof -
  have "set [''lanes'', ''maxspeed'', ''highway'', ''width''] \<subseteq> set (columns example_edges)
     \<and> (\<forall>(i, r)\<in>set (rows example_edges).
           (\<exists>L. lanes_assumed_spec 2 (cell r ''lanes'') = Inr L)
           \<and> (\<exists>S. maxspeed_assumed_spec 40 50 100 80 80 (cell r ''maxspeed'') (cell r ''highway'') = Inr S)
           \<and> comparable (cell r ''width''))"
    by (simp add: example_edges_def cell_def example_edges_resolved comparable_def)
  with with_parking_cascade [of example_edges]
  obtain out where out: "bike_lane_analysis_with_parking example_edges = Inr out"
    by blast
  from with_parking_cascade [of example_edges out] out
  have "map (\<lambda>(i, r). (i, cell r ''rule'', cell r ''lts'')) (rows out)
         = [(0, StrV ''b6'', IntV 2), (1, StrV ''b8'', IntV 4), (2, StrV ''b4'', IntV 2)]"
    by (auto simp: example_edges_def list_all2_Cons1 cell_def example_edges_resolved
        lane_parking_spec_def cmp_holds_def cell_cmp_def cmp_rat_def)
  with out show ?thesis by (intro exI [of _ out] conjI)
qed

subsection \<open>Every scored edge has an LTS\<close>

lemma lane_parking_lts: "1 \<le> snd (lane_parking_spec L S w h) \<and> snd (lane_parking_spec L S w h) \<le> 4"
  by (simp add: lane_parking_spec_def)

lemma lane_no_parking_lts: "1 \<le> snd (lane_no_parking_spec L S w h) \<and> snd (lane_no_parking_spec L S w h) \<le> 4"
  by (simp add: lane_no_parking_spec_def)

lemma mixed_rule_lts:
  "\<exists>n. rule_dict_mixed (mixed_rule_spec L S mv hw fw sv) = Some n \<and> 1 \<le> n \<and> n \<le> 4"
  unfolding mixed_rule_spec_def rule_dict_mixed_def by (simp split: if_splits)

lemma mixed_rule_not_m0: "mixed_rule_spec L S mv hw fw sv \<noteq> ''m0''"
  unfolding mixed_rule_spec_def by (simp split: if_splits)

text \<open>
  C5, as the claim states it: in every scoring procedure the catch-all default is mapped to an
  LTS value. The default \<open>m0\<close> of \<open>mixed_traffic\<close> has no entry in its dictionary.
\<close>

theorem mixed_default_unmapped_counterexample:
  "rule_dict_mixed ''m0'' = None"
  by (simp add: rule_dict_mixed_def)

text \<open>
  C5, amended. The defaults \<open>b1\<close> and \<open>c1\<close> of the two bike lane scorers are mapped to LTS 1.
  The default \<open>m0\<close> of \<open>mixed_traffic\<close> is not mapped, but it is never assigned: the sixteen
  predicates cover every pair of integers \<open>maxspeed_assumed\<close> and \<open>lanes_assumed\<close>. So
  whenever one of the three scorers returns, the result has the edges of the input, and the
  \<open>lts\<close> of every edge is an integer from 1 to 4, never \<open>NaN\<close>.
\<close>

theorem scorers_give_lts:
  "(bike_lane_analysis_with_parking df = Inr out \<longrightarrow>
      index out = index df
      \<and> (\<forall>(i, r)\<in>set (rows out). \<exists>n. cell r ''lts'' = IntV n \<and> 1 \<le> n \<and> n \<le> 4))
   \<and> (bike_lane_analysis_no_parking df = Inr out \<longrightarrow>
      index out = index df
      \<and> (\<forall>(i, r)\<in>set (rows out). \<exists>n. cell r ''lts'' = IntV n \<and> 1 \<le> n \<and> n \<le> 4))
   \<and> (mixed_traffic df = Inr out \<longrightarrow>
      index out = index df
      \<and> (\<forall>(i, r)\<in>set (rows out). cell r ''rule'' \<noteq> StrV ''m0''
            \<and> (\<exists>n. cell r ''lts'' = IntV n \<and> 1 \<le> n \<and> n \<le> 4)))
   \<and> rule_dict_with_parking ''b1'' = Some 1
   \<and> rule_dict_no_parking ''c1'' = Some 1"
proof (intro conjI impI)
  {
    assume "bike_lane_analysis_with_parking df = Inr out"
    note c = conjunct1 [OF with_parking_Inr [OF this]]
    show "index out = index df"
      unfolding index_def c by (simp add: comp_def)
    show "\<forall>(i, r)\<in>set (rows out). \<exists>n. cell r ''lts'' = IntV n \<and> 1 \<le> n \<and> n \<le> 4"
      unfolding c by (auto simp: lane_parking_lts)
  }
  {
    assume "bike_lane_analysis_no_parking df = Inr out"
    note c = conjunct1 [OF no_parking_Inr [OF this]]
    show "index out = index df"
      unfolding index_def c by (simp add: comp_def Let_def)
    show "\<forall>(i, r)\<in>set (rows out). \<exists>n. cell r ''lts'' = IntV n \<and> 1 \<le> n \<and> n \<le> 4"
      unfolding c by (auto simp: lane_no_parking_lts Let_def)
  }
  {
    assume "mixed_traffic df = Inr out"
    note c = conjunct1 [OF mixed_traffic_Inr [OF this]]
    show "index out = index df"
      unfolding index_def c by (simp add: comp_def Let_def)
    show "\<forall>(i, r)\<in>set (rows out). cell r ''rule'' \<noteq> StrV ''m0''
            \<and> (\<exists>n. cell r ''lts'' = IntV n \<and> 1 \<le> n \<and> n \<le> 4)"
      unfolding c
    proof (clarsimp simp: Let_def mixed_rule_not_m0)
      fix a b
      from mixed_rule_lts [of "lanes_of b" "speed_of b" "cell b ''motor_vehicle''" "cell b ''highway''"
          "cell b ''footway''" "cell b ''service''"]
      show "\<exists>n. (case rule_dict_mixed
                  (mixed_rule_spec (lanes_of b) (speed_of b) (cell b ''motor_vehicle'')
                    (cell b ''highway'') (cell b ''footway'') (cell b ''service'')) of
            None \<Rightarrow> FltV NaN | Some x \<Rightarrow> IntV x) = IntV n \<and> 1 \<le> n \<and> n \<le> 4"
        by auto
    qed
  }
  show "rule_dict_with_parking ''b1'' = Some 1"
    by (simp add: rule_dict_with_parking_def)
  show "rule_dict_no_parking ''c1'' = Some 1"
    by (simp add: rule_dict_no_parking_def)
qed

lemma example_edges_width_no_list: "\<forall>p\<in>set (rows example_edges). \<forall>ss. cell (snd p) ''width'' \<noteq> LstV ss"
  by (simp add: example_edges_def cell_def)

theorem scorers_give_lts_witness:
  "\<exists>o1 o2 o3.
     bike_lane_analysis_with_parking example_edges = Inr o1
     \<and> bike_lane_analysis_no_parking example_edges = Inr o2
     \<and> mixed_traffic example_edges = Inr o3
     \<and> index o1 = [0, 1, 2] \<and> index o2 = [0, 1, 2] \<and> index o3 = [0, 1, 2]
     \<and> list_all (\<lambda>(i, r). \<exists>n. cell r ''lts'' = IntV n \<and> 1 \<le> n \<and> n \<le> 4) (rows o1 @ rows o2 @ rows o3)"
proof -
  obtain o1 where o1: "bike_lane_analysis_with_parking example_edges = Inr o1"
    using with_parking_total [of example_edges] example_edges_resolvable example_edges_width
    by (auto simp: example_edges_def)
  obtain o2 where o2: "bike_lane_analysis_no_parking example_edges = Inr o2"
    using no_parking_total [of example_edges] example_edges_resolvable example_edges_width_no_list
    by (auto simp: example_edges_def)
  obtain o3 where o3: "mixed_traffic example_edges = Inr o3"
    using mixed_traffic_total [of example_edges] example_edges_resolvable
    by (auto simp: example_edges_def)
  have i: "index example_edges = [0, 1, 2]"
    by (simp add: index_def example_edges_def)
  have p1: "index o1 = [0, 1, 2] \<and> list_all (\<lambda>(i, r). \<exists>n. cell r ''lts'' = IntV n \<and> 1 \<le> n \<and> n \<le> 4) (rows o1)"
    using scorers_give_lts [of example_edges o1] o1 i by (simp add: list_all_iff)
  have p2: "index o2 = [0, 1, 2] \<and> list_all (\<lambda>(i, r). \<exists>n. cell r ''lts'' = IntV n \<and> 1 \<le> n \<and> n \<le> 4) (rows o2)"
    using scorers_give_lts [of example_edges o2] o2 i by (simp add: list_all_iff)
  have p3: "index o3 = [0, 1, 2] \<and> list_all (\<lambda>(i, r). \<exists>n. cell r ''lts'' = IntV n \<and> 1 \<le> n \<and> n \<le> 4) (rows o3)"
    using scorers_give_lts [of example_edges o3] o3 i by (simp add: list_all_iff case_prod_unfold)
  from o1 o2 o3 p1 p2 p3 show ?thesis
    by (intro exI [of _ o1] exI [of _ o2] exI [of _ o3]) simp
qed

subsection \<open>A speed with a unit in the generic resolver\<close>

lemma starts_with_set: "starts_with ps s \<Longrightarrow> set ps \<subseteq> set s"
  by (induction ps s rule: starts_with.induct) auto

lemma py_in_set: "py_in sub s \<Longrightarrow> set sub \<subseteq> set s"
proof (induction sub s rule: py_in.induct)
  case (1 sub)
  then show ?case by simp
next
  case (2 sub c cs)
  from "2.prems" have "starts_with sub (c # cs) \<or> py_in sub cs"
    by simp
  then show ?case
  proof
    assume "starts_with sub (c # cs)"
    then show ?thesis by (rule starts_with_set)
  next
    assume "py_in sub cs"
    with "2.IH" show ?thesis by auto
  qed
qed

lemma digits_tail_rest:
  "c \<in> set cs \<Longrightarrow> \<not> is_digit c \<Longrightarrow> c \<noteq> CHR ''_'' \<Longrightarrow> snd (digits_tail cs) \<noteq> []"
  by (induction cs rule: digits_tail.induct) (auto split: prod.splits)

lemma digitpart_rest:
  assumes "c \<in> set u" "\<not> is_digit c" "c \<noteq> CHR ''_''"
  shows "digitpart u \<noteq> Some (ds, [])"
proof (cases u)
  case Nil
  then show ?thesis by (simp add: digitpart_def)
next
  case (Cons d cs)
  show ?thesis
  proof (cases "is_digit d")
    case True
    with assms Cons have "c \<in> set cs"
      by auto
    from digits_tail_rest [OF this assms(2,3)] show ?thesis
      using Cons True by (auto simp: digitpart_def split: prod.splits)
  next
    case False
    then show ?thesis
      using Cons by (simp add: digitpart_def)
  qed
qed

lemma strip_numspace_keeps:
  assumes "c \<in> set s" "\<not> py_numspace c"
  shows "c \<in> set (strip_numspace s)"
proof -
  have k: "c \<in> set (dropWhile py_numspace xs)" if "c \<in> set xs" for xs
    using that assms(2) by (induction xs) auto
  show ?thesis
    unfolding strip_numspace_def using k [of "rev (dropWhile py_numspace s)"] k [OF assms(1)]
    by simp
qed

lemma take_sign_keeps:
  "c \<in> set s \<Longrightarrow> c \<noteq> CHR ''-'' \<Longrightarrow> c \<noteq> CHR ''+'' \<Longrightarrow> c \<in> set (snd (take_sign s))"
  by (cases s) (auto simp: take_sign_def)

lemma py_int_letter:
  assumes "c \<in> set s" "\<not> is_digit c" "c \<noteq> CHR ''_''" "c \<noteq> CHR ''-''" "c \<noteq> CHR ''+''" "\<not> py_numspace c"
  shows "py_int s = None"
proof -
  have "c \<in> set (snd (take_sign (strip_numspace s)))"
    by (intro take_sign_keeps strip_numspace_keeps assms)
  then have "digitpart (snd (take_sign (strip_numspace s))) \<noteq> Some (ds, [])" for ds
    by (rule digitpart_rest) (rule assms)+
  then show ?thesis
    by (cases "take_sign (strip_numspace s)")
       (auto simp: py_int_def split: option.splits list.splits)
qed

lemma unit_suffix_no_int:
  assumes "py_in ''mph'' s \<or> py_in ''knots'' s"
  shows "py_int s = None"
proof -
  from assms have "CHR ''m'' \<in> set s \<or> CHR ''k'' \<in> set s"
    by (auto dest!: py_in_set)
  then show ?thesis
  proof
    assume "CHR ''m'' \<in> set s"
    then show ?thesis
      by (rule py_int_letter) (simp_all add: is_digit_def digit_val_def py_numspace_def)
  next
    assume "CHR ''k'' \<in> set s"
    then show ?thesis
      by (rule py_int_letter) (simp_all add: is_digit_def digit_val_def py_numspace_def)
  qed
qed

lemma unit_suffix_cell:
  assumes "py_in ''mph'' s \<or> py_in ''knots'' s"
  shows "maxspeed_assumed_spec n l m p q (StrV s) h = Inl ValueError"
proof -
  have "s \<noteq> ''national''"
    using assms by auto
  then show ?thesis
    using unit_suffix_no_int [OF assms]
    by (simp add: maxspeed_assumed_spec_def is_missing_def resolve_int_def np_array_int_def int_of_str_def)
qed

lemma set_col_member:
  assumes "(i, r) \<in> set (rows df)" and "length vs = length (rows df)"
  shows "\<exists>v. (i, r(c \<mapsto> v)) \<in> set (rows (set_col df c vs))"
proof -
  from assms(1) obtain k where k: "k < length (rows df)" "rows df ! k = (i, r)"
    by (auto simp: in_set_conv_nth)
  with assms(2) have "rows (set_col df c vs) ! k = (i, r(c \<mapsto> vs ! k))"
    by (simp add: set_col_def)
  moreover have "k < length (rows (set_col df c vs))"
    using k assms(2) by (simp add: set_col_def)
  ultimately show ?thesis
    by (metis nth_mem)
qed

lemma unit_suffix_not_resolvable:
  assumes "cell r ''maxspeed'' = StrV s" and "py_in ''mph'' s \<or> py_in ''knots'' s"
  shows "\<not> resolvable r"
  using unit_suffix_cell [OF assms(2), of 40 50 100 80 80 "cell r ''highway''"] assms(1)
  by (simp add: resolvable_def)

lemma get_max_speed_raises:
  assumes "(i, r) \<in> set (rows df)" and "cell r ''maxspeed'' = StrV s"
    and "py_in ''mph'' s \<or> py_in ''knots'' s"
  shows "\<exists>e. get_max_speed df n l m p q = Inl e"
proof (cases "get_max_speed df n l m p q")
  case (Inl e)
  then show ?thesis by simp
next
  case (Inr out)
  from get_max_speed_Inr [OF this] assms(1)
  have "\<exists>v. maxspeed_assumed_spec n l m p q (cell r ''maxspeed'') (cell r ''highway'') = Inr v"
    by auto
  with unit_suffix_cell [OF assms(3), of n l m p q "cell r ''highway''"] assms(2) show ?thesis
    by simp
qed

text \<open>
  C9. \<open>get_max_speed\<close> never calls the speed parser. When an edge of the table has a
  \<open>maxspeed\<close> text that names its unit (it contains \<open>mph\<close> or \<open>knots\<close>), the default
  branch of \<open>np.select\<close> keeps the text and the cast to integer fails: \<open>get_max_speed\<close>
  raises, with \<open>ValueError\<close> when this edge is the whole table, and so does each of the
  three scoring procedures, which call it. Calling \<open>clean_speeds\<close> with its default
  \<open>newkey\<close> first changes nothing, since it writes the column \<open>maxspeed_mph\<close> and leaves
  \<open>maxspeed\<close> as it was; the witness shows that with \<open>newkey = 'maxspeed'\<close> the resolver
  returns 35 for \<open>'35 mph'\<close>.
\<close>

theorem unit_suffix_speed_raises:
  assumes "(i, r) \<in> set (rows df)" and "cell r ''maxspeed'' = StrV s"
    and "py_in ''mph'' s \<or> py_in ''knots'' s"
  shows "(\<exists>e. get_max_speed df national local motorway primary secondary = Inl e)
    \<and> (''maxspeed'' \<in> set (columns df) \<and> ''highway'' \<in> set (columns df) \<and> rows df = [(i, r)]
          \<longrightarrow> get_max_speed df national local motorway primary secondary = Inl ValueError)
    \<and> (\<exists>e. bike_lane_analysis_with_parking df = Inl e)
    \<and> (\<exists>e. bike_lane_analysis_no_parking df = Inl e)
    \<and> (\<exists>e. mixed_traffic df = Inl e)
    \<and> (\<forall>units df'. clean_speeds df ''maxspeed'' units None = Inr df'
          \<longrightarrow> (\<exists>e. get_max_speed df' national local motorway primary secondary = Inl e))"
proof (intro conjI allI impI)
  note nr = unit_suffix_not_resolvable [OF assms(2,3)]
  show "\<exists>e. get_max_speed df national local motorway primary secondary = Inl e"
    using assms by (rule get_max_speed_raises)
  show "get_max_speed df national local motorway primary secondary = Inl ValueError"
    if "''maxspeed'' \<in> set (columns df) \<and> ''highway'' \<in> set (columns df) \<and> rows df = [(i, r)]"
  proof -
    have "s \<noteq> ''national''"
      using assms(3) by auto
    then show ?thesis
      using that assms(2) unit_suffix_no_int [OF assms(3)]
      by (simp add: get_max_speed_def eq_col_present isna_col_present col_present Let_def
          is_missing_def np_array_int_def int_of_str_def band_def)
  qed
  show "\<exists>e. bike_lane_analysis_with_parking df = Inl e"
  proof (cases "bike_lane_analysis_with_parking df")
    case (Inr out)
    from with_parking_Inr [OF this] assms(1) nr show ?thesis by auto
  qed simp
  show "\<exists>e. bike_lane_analysis_no_parking df = Inl e"
  proof (cases "bike_lane_analysis_no_parking df")
    case (Inr out)
    from no_parking_Inr [OF this] assms(1) nr show ?thesis by auto
  qed simp
  show "\<exists>e. mixed_traffic df = Inl e"
  proof (cases "mixed_traffic df")
    case (Inr out)
    from mixed_traffic_Inr [OF this] assms(1) nr show ?thesis by auto
  qed simp
  show "\<exists>e. get_max_speed df' national local motorway primary secondary = Inl e"
    if c: "clean_speeds df ''maxspeed'' units None = Inr df'" for units df'
  proof -
    from c obtain parsed where p: "mapM parse_speed (map (\<lambda>p. cell (snd p) ''maxspeed'') (rows df)) = Inr parsed"
      and d: "df' = set_col df (''maxspeed_'' @ units) parsed"
      by (auto simp: clean_speeds_def bind_eq_Inr col_eq_Inr)
    from mapM_length [OF p] have "length parsed = length (rows df)"
      by simp
    from set_col_member [OF assms(1) this, of "''maxspeed_'' @ units"] d
    obtain v where "(i, r(''maxspeed_'' @ units \<mapsto> v)) \<in> set (rows df')"
      by auto
    moreover have "cell (r(''maxspeed_'' @ units \<mapsto> v)) ''maxspeed'' = StrV s"
      using assms(2) by simp
    ultimately show ?thesis
      using assms(3) by (rule get_max_speed_raises)
  qed
qed

lemma example_mph_parsed: "parse_speed (StrV ''35 mph'') = Inr (FltV (Fin 35))"
  by code_simp

theorem unit_suffix_speed_raises_witness:
  "(7, [''highway'' \<mapsto> StrV ''residential'', ''maxspeed'' \<mapsto> StrV ''35 mph'']) \<in> set (rows example_mph)
   \<and> py_in ''mph'' ''35 mph''
   \<and> get_max_speed example_mph 40 50 100 80 80 = Inl ValueError
   \<and> (\<exists>e. mixed_traffic example_mph = Inl e)
   \<and> (\<exists>df' out. clean_speeds example_mph ''maxspeed'' ''mph'' (Some ''maxspeed'') = Inr df'
         \<and> get_max_speed df' 40 50 100 80 80 = Inr out
         \<and> map (\<lambda>(i, r). cell r ''maxspeed_assumed'') (rows out) = [IntV 35])"
proof -
  have m: "(7, [''highway'' \<mapsto> StrV ''residential'', ''maxspeed'' \<mapsto> StrV ''35 mph'']) \<in> set (rows example_mph)"
    by (simp add: example_mph_def)
  have c: "cell [''highway'' \<mapsto> StrV ''residential'', ''maxspeed'' \<mapsto> StrV ''35 mph''] ''maxspeed'' = StrV ''35 mph''"
    by (simp add: cell_def)
  have u: "py_in ''mph'' ''35 mph'' \<or> py_in ''knots'' ''35 mph''"
    by simp
  have cols: "''maxspeed'' \<in> set (columns example_mph) \<and> ''highway'' \<in> set (columns example_mph)
      \<and> rows example_mph = [(7, [''highway'' \<mapsto> StrV ''residential'', ''maxspeed'' \<mapsto> StrV ''35 mph''])]"
    by (simp add: example_mph_def)
  note t = unit_suffix_speed_raises [OF m c u, of 40 50 100 80 80]
  from t cols have a: "get_max_speed example_mph 40 50 100 80 80 = Inl ValueError"
    by simp
  from t have b: "\<exists>e. mixed_traffic example_mph = Inl e"
    by simp
  define D where "D = \<lparr>columns = [''highway'', ''maxspeed'', ''lanes'', ''width'', ''motor_vehicle'', ''footway'', ''service''],
      rows = [(7 :: nat, [''highway'' \<mapsto> StrV ''residential'', ''maxspeed'' \<mapsto> FltV (Fin 35)])]\<rparr>"
  have cs: "clean_speeds example_mph ''maxspeed'' ''mph'' (Some ''maxspeed'') = Inr D"
    by (simp add: D_def clean_speeds_def example_mph_def col_def cell_def example_mph_parsed set_col_def
        Let_def)
  have gm: "\<exists>out. get_max_speed D 40 50 100 80 80 = Inr out
         \<and> map (\<lambda>(i, r). cell r ''maxspeed_assumed'') (rows out) = [IntV 35]"
    by (simp add: D_def get_max_speed_def eq_col_present isna_col_present col_present Let_def
        is_missing_def cell_def np_array_int_def int64_def np_max_def set_col_def band_def)
  from cs gm have n: "\<exists>df' out. clean_speeds example_mph ''maxspeed'' ''mph'' (Some ''maxspeed'') = Inr df'
         \<and> get_max_speed df' 40 50 100 80 80 = Inr out
         \<and> map (\<lambda>(i, r). cell r ''maxspeed_assumed'') (rows out) = [IntV 35]"
    by - (rule exI [of _ D], simp)
  from m a b n show ?thesis
    by simp
qed

subsection \<open>The residential street from end to end\<close>

lemma missing_not_text: "is_missing v \<Longrightarrow> v \<noteq> StrV s"
  by (auto simp: is_missing_def)

lemma missing_lanes: "is_missing v \<Longrightarrow> lanes_assumed_spec 2 v = Inr 2"
  by (simp add: lanes_assumed_spec_def resolve_int_def np_array_int_def int64_def np_max_def)

lemma missing_speed_residential:
  "is_missing v \<Longrightarrow> maxspeed_assumed_spec 40 50 100 80 80 v (StrV ''residential'') = Inr 50"
  by (auto simp: maxspeed_assumed_spec_def resolve_int_def np_array_int_def int64_def np_max_def is_missing_def)

lemma tag_in_missing:
  assumes "\<And>c. c \<in> set tags \<Longrightarrow> is_missing (cell r c)"
  shows "\<not> tag_in tags idents r"
  using assms by (fastforce simp: tag_in_def list_ex_iff is_missing_def split: pyval.splits)

lemma cell_drop [simp]: "cell (r(c := None)) c' = (if c' = c then FltV NaN else cell r c')"
  by (simp add: cell_def)

lemma scenario_permission:
  assumes cols: "''bicycle'' \<in> set (columns df)" "''access'' \<in> set (columns df)"
      "''highway'' \<in> set (columns df)" "''footway'' \<in> set (columns df)"
    and one: "rows df = [(i, r)]"
    and hw: "cell r ''highway'' = StrV ''residential''"
    and rest: "\<forall>c\<in>set (columns df). c \<noteq> ''highway'' \<longrightarrow> is_missing (cell r c)"
  shows "biking_permitted df =
    Inr (\<lparr>columns = (if ''rule'' \<in> set (columns df) then columns df else columns df @ [''rule'']),
          rows = [(i, r(''rule'' \<mapsto> StrV ''p0''))]\<rparr>,
         \<lparr>columns = (if ''rule'' \<in> set (columns df) then columns df else columns df @ [''rule'']),
          rows = [(i, r(''rule'' \<mapsto> StrV ''p0''))]\<rparr>,
         \<lparr>columns = (if ''rule'' \<in> set (columns df) then columns df else columns df @ [''rule'']),
          rows = []\<rparr>)"
proof -
  have "is_missing (cell r ''bicycle'')" "is_missing (cell r ''access'')" "is_missing (cell r ''footway'')"
    using cols rest by auto
  then have p0: "permission_rule_spec r = ''p0''"
    using hw by (simp add: permission_rule_spec_def missing_not_text)
  from biking_permitted_total [OF cols] obtain res where res: "biking_permitted df = Inr res" ..
  from biking_permitted_Inr [OF res] res show ?thesis
    by (simp add: one p0)
qed

lemma scenario_separation:
  assumes cols: "''highway'' \<in> set cs" "''footway'' \<in> set cs"
    and hw: "cell r ''highway'' = StrV ''residential''"
    and rest: "\<forall>c\<in>set cs. py_in ''cycleway'' c \<longrightarrow> is_missing (cell r c)"
  shows "is_separated_path \<lparr>columns = cs, rows = [(i, r)]\<rparr> =
    Inr (\<lparr>columns = (if ''rule'' \<in> set cs then cs else cs @ [''rule'']),
          rows = [(i, r(''rule'' \<mapsto> StrV ''s0''))]\<rparr>,
         \<lparr>columns = (if ''rule'' \<in> set cs then cs else cs @ [''rule'']), rows = []\<rparr>,
         \<lparr>columns = removeAll ''rule'' (if ''rule'' \<in> set cs then cs else cs @ [''rule'']),
          rows = [(i, r(''rule'' := None))]\<rparr>)"
proof -
  have "\<not> list_ex (\<lambda>c. cell r c = StrV s) (filter (py_in ''cycleway'') cs)" for s
    using rest by (auto simp: list_ex_iff dest: missing_not_text)
  then have s0: "separation_rule_spec (filter (py_in ''cycleway'') cs) r = ''s0''"
    using hw by (simp add: separation_rule_spec_def)
  from is_separated_path_total [of "\<lparr>columns = cs, rows = [(i, r)]\<rparr>"] cols
  obtain res where res: "is_separated_path \<lparr>columns = cs, rows = [(i, r)]\<rparr> = Inr res"
    by auto
  from is_separated_path_Inr [OF res] res show ?thesis
    by (simp add: Let_def columns_containing_def s0)
qed

lemma scenario_lane:
  assumes rest: "\<forall>c\<in>set cs. c \<noteq> ''highway'' \<longrightarrow> is_missing (cell r c)"
    and hw: "cell r ''highway'' = StrV ''residential''"
  shows "is_bike_lane \<lparr>columns = cs, rows = [(i, r)]\<rparr> =
    Inr (\<lparr>columns = cs, rows = []\<rparr>, \<lparr>columns = cs, rows = [(i, r)]\<rparr>)"
proof -
  have "\<not> tag_in (filter (py_in ''cycleway'') cs) lane_identifiers r"
    using rest by (intro tag_in_missing) auto
  moreover have "cell r ''shoulder:access:bicycle'' \<noteq> StrV ''yes''" if "''shoulder:access:bicycle'' \<in> set cs"
    using rest that by (auto dest: missing_not_text)
  ultimately have nd: "\<not> lane_detected_spec cs r"
    by (auto simp: lane_detected_spec_def)
  from tag_classifiers_total(1) [of "\<lparr>columns = cs, rows = [(i, r)]\<rparr>"]
  obtain res where res: "is_bike_lane \<lparr>columns = cs, rows = [(i, r)]\<rparr> = Inr res" ..
  from is_bike_lane_Inr [OF res] res show ?thesis
    by (simp add: nd)
qed

lemma scenario_mixed:
  assumes cols: "''lanes'' \<in> set cs" "''maxspeed'' \<in> set cs" "''highway'' \<in> set cs"
      "''motor_vehicle'' \<in> set cs" "''footway'' \<in> set cs" "''service'' \<in> set cs"
    and rest: "\<forall>c\<in>set cs. c \<noteq> ''highway'' \<longrightarrow> is_missing (cell r c)"
    and hw: "cell r ''highway'' = StrV ''residential''"
  shows "\<exists>out. mixed_traffic \<lparr>columns = cs, rows = [(i, r)]\<rparr> = Inr out
    \<and> rows out = [(i, r(''lanes_assumed'' \<mapsto> IntV 2, ''maxspeed_assumed'' \<mapsto> IntV 50,
                        ''rule'' \<mapsto> StrV ''m9'', ''lts'' \<mapsto> IntV 2))]"
proof -
  have m: "is_missing (cell r ''lanes'')" "is_missing (cell r ''maxspeed'')"
      "is_missing (cell r ''motor_vehicle'')"
    using cols rest by auto
  have L: "lanes_assumed_spec 2 (cell r ''lanes'') = Inr 2"
    using m by (simp add: missing_lanes)
  have S: "maxspeed_assumed_spec 40 50 100 80 80 (cell r ''maxspeed'') (cell r ''highway'') = Inr 50"
    using m hw by (simp add: missing_speed_residential)
  have res: "resolvable r"
    using L S by (simp add: resolvable_def)
  have v: "lanes_of r = 2" "speed_of r = 50"
    using L S by (simp_all add: lanes_of_def speed_of_def int_value_def)
  have rule: "mixed_rule_spec 2 50 (cell r ''motor_vehicle'') (StrV ''residential'') (cell r ''footway'')
      (cell r ''service'') = ''m9''"
    using m by (simp add: mixed_rule_spec_def missing_not_text)
  from mixed_traffic_total [of "\<lparr>columns = cs, rows = [(i, r)]\<rparr>"] cols res
  obtain out where out: "mixed_traffic \<lparr>columns = cs, rows = [(i, r)]\<rparr> = Inr out"
    by auto
  from mixed_traffic_Inr [OF out] have "rows out = [(i, r(''lanes_assumed'' \<mapsto> IntV 2, ''maxspeed_assumed'' \<mapsto> IntV 50,
                        ''rule'' \<mapsto> StrV ''m9'', ''lts'' \<mapsto> IntV 2))]"
    by (simp add: Let_def v hw rule with_assumed_def rule_dict_mixed_def)
  with out show ?thesis
    by simp
qed

text \<open>
  C3. A table of one edge with \<open>highway = 'residential'\<close> and every other column missing
  (\<open>maxspeed\<close>, \<open>lanes\<close>, the cycleway and parking families, and the tags the classifiers
  read) goes through the stages in turn, each of which returns: \<open>biking_permitted\<close> gives it
  rule \<open>p0\<close> and puts it in \<open>allowed\<close>; \<open>is_separated_path\<close> gives it rule \<open>s0\<close> and puts it
  in \<open>not_separated\<close>; \<open>is_bike_lane\<close> puts it in \<open>no_lane\<close>; and \<open>mixed_traffic\<close> resolves
  \<open>maxspeed_assumed\<close> to 50 and \<open>lanes_assumed\<close> to 2, assigns rule \<open>m9\<close> and \<open>lts = 2\<close>.
\<close>

theorem residential_scenario:
  assumes cols: "set [''bicycle'', ''access'', ''highway'', ''footway'', ''lanes'', ''maxspeed'',
                      ''motor_vehicle'', ''service''] \<subseteq> set (columns df)"
    and one: "rows df = [(i, r)]"
    and hw: "cell r ''highway'' = StrV ''residential''"
    and rest: "\<forall>c\<in>set (columns df). c \<noteq> ''highway'' \<longrightarrow> is_missing (cell r c)"
  shows "\<exists>df1 allowed not_allowed df2 separated not_separated to_analyze no_lane out.
      biking_permitted df = Inr (df1, allowed, not_allowed)
      \<and> rows allowed = [(i, r(''rule'' \<mapsto> StrV ''p0''))] \<and> rows not_allowed = []
      \<and> is_separated_path allowed = Inr (df2, separated, not_separated)
      \<and> rows df2 = [(i, r(''rule'' \<mapsto> StrV ''s0''))] \<and> rows separated = []
      \<and> rows not_separated = [(i, r(''rule'' := None))]
      \<and> is_bike_lane not_separated = Inr (to_analyze, no_lane)
      \<and> rows to_analyze = [] \<and> rows no_lane = [(i, r(''rule'' := None))]
      \<and> mixed_traffic no_lane = Inr out
      \<and> (\<exists>r'. rows out = [(i, r')]
            \<and> cell r' ''maxspeed_assumed'' = IntV 50 \<and> cell r' ''lanes_assumed'' = IntV 2
            \<and> cell r' ''rule'' = StrV ''m9'' \<and> cell r' ''lts'' = IntV 2)"
proof -
  define C1 where "C1 = (if ''rule'' \<in> set (columns df) then columns df else columns df @ [''rule''])"
  define C2 where "C2 = removeAll ''rule'' C1"
  define r1 where "r1 = r(''rule'' \<mapsto> StrV ''p0'')"
  define r2 where "r2 = r(''rule'' := None)"
  have C1: "set C1 = insert ''rule'' (set (columns df))"
    by (auto simp: C1_def)
  have C2: "set C2 = set (columns df) - {''rule''}"
    by (auto simp: C2_def C1)
  have s1: "biking_permitted df =
      Inr (\<lparr>columns = C1, rows = [(i, r1)]\<rparr>, \<lparr>columns = C1, rows = [(i, r1)]\<rparr>, \<lparr>columns = C1, rows = []\<rparr>)"
    unfolding C1_def r1_def using cols one hw rest by (intro scenario_permission) auto
  have "is_separated_path \<lparr>columns = C1, rows = [(i, r1)]\<rparr> =
    Inr (\<lparr>columns = (if ''rule'' \<in> set C1 then C1 else C1 @ [''rule'']),
          rows = [(i, r1(''rule'' \<mapsto> StrV ''s0''))]\<rparr>,
         \<lparr>columns = (if ''rule'' \<in> set C1 then C1 else C1 @ [''rule'']), rows = []\<rparr>,
         \<lparr>columns = removeAll ''rule'' (if ''rule'' \<in> set C1 then C1 else C1 @ [''rule'']),
          rows = [(i, r1(''rule'' := None))]\<rparr>)"
  proof (rule scenario_separation)
    show "''highway'' \<in> set C1" "''footway'' \<in> set C1"
      using cols by (auto simp: C1)
    show "cell r1 ''highway'' = StrV ''residential''"
      using hw by (simp add: r1_def)
    show "\<forall>c\<in>set C1. py_in ''cycleway'' c \<longrightarrow> is_missing (cell r1 c)"
    proof (intro ballI impI)
      fix c
      assume c: "c \<in> set C1" "py_in ''cycleway'' c"
      then have "c \<noteq> ''rule''" "c \<noteq> ''highway''"
        by auto
      with c rest show "is_missing (cell r1 c)"
        by (auto simp: C1 r1_def)
    qed
  qed
  then have s2: "is_separated_path \<lparr>columns = C1, rows = [(i, r1)]\<rparr> =
    Inr (\<lparr>columns = C1, rows = [(i, r(''rule'' \<mapsto> StrV ''s0''))]\<rparr>, \<lparr>columns = C1, rows = []\<rparr>,
         \<lparr>columns = C2, rows = [(i, r2)]\<rparr>)"
    by (simp add: C1 C2_def r1_def r2_def)
  have rest2: "\<forall>c\<in>set C2. c \<noteq> ''highway'' \<longrightarrow> is_missing (cell r2 c)"
    using rest by (auto simp: C2 r2_def)
  have hw2: "cell r2 ''highway'' = StrV ''residential''"
    using hw by (simp add: r2_def)
  have s3: "is_bike_lane \<lparr>columns = C2, rows = [(i, r2)]\<rparr> =
    Inr (\<lparr>columns = C2, rows = []\<rparr>, \<lparr>columns = C2, rows = [(i, r2)]\<rparr>)"
    using rest2 hw2 by (rule scenario_lane)
  have "\<exists>out. mixed_traffic \<lparr>columns = C2, rows = [(i, r2)]\<rparr> = Inr out
    \<and> rows out = [(i, r2(''lanes_assumed'' \<mapsto> IntV 2, ''maxspeed_assumed'' \<mapsto> IntV 50,
                        ''rule'' \<mapsto> StrV ''m9'', ''lts'' \<mapsto> IntV 2))]"
    using cols rest2 hw2 by (intro scenario_mixed) (auto simp: C2)
  then obtain out where s4: "mixed_traffic \<lparr>columns = C2, rows = [(i, r2)]\<rparr> = Inr out"
    and o: "rows out = [(i, r2(''lanes_assumed'' \<mapsto> IntV 2, ''maxspeed_assumed'' \<mapsto> IntV 50,
                        ''rule'' \<mapsto> StrV ''m9'', ''lts'' \<mapsto> IntV 2))]"
    by auto
  have f: "\<exists>r'. rows out = [(i, r')]
            \<and> cell r' ''maxspeed_assumed'' = IntV 50 \<and> cell r' ''lanes_assumed'' = IntV 2
            \<and> cell r' ''rule'' = StrV ''m9'' \<and> cell r' ''lts'' = IntV 2"
    unfolding o by simp
  show ?thesis
    apply (rule exI [of _ "\<lparr>columns = C1, rows = [(i, r1)]\<rparr>"])
    apply (rule exI [of _ "\<lparr>columns = C1, rows = [(i, r1)]\<rparr>"])
    apply (rule exI [of _ "\<lparr>columns = C1, rows = []\<rparr>"])
    apply (rule exI [of _ "\<lparr>columns = C1, rows = [(i, r(''rule'' \<mapsto> StrV ''s0''))]\<rparr>"])
    apply (rule exI [of _ "\<lparr>columns = C1, rows = []\<rparr>"])
    apply (rule exI [of _ "\<lparr>columns = C2, rows = [(i, r2)]\<rparr>"])
    apply (rule exI [of _ "\<lparr>columns = C2, rows = []\<rparr>"])
    apply (rule exI [of _ "\<lparr>columns = C2, rows = [(i, r2)]\<rparr>"])
    apply (rule exI [of _ out])
    using s1 s2 s3 s4 f apply (simp add: r1_def r2_def)
    done
qed

theorem residential_scenario_witness:
  "rows example_residential = [(0, [''highway'' \<mapsto> StrV ''residential''])]
   \<and> (\<exists>df1 allowed not_allowed df2 separated not_separated to_analyze no_lane out.
      biking_permitted example_residential = Inr (df1, allowed, not_allowed)
      \<and> rows allowed = [(0, [''highway'' \<mapsto> StrV ''residential'', ''rule'' \<mapsto> StrV ''p0''])]
      \<and> rows not_allowed = []
      \<and> is_separated_path allowed = Inr (df2, separated, not_separated)
      \<and> rows df2 = [(0, [''highway'' \<mapsto> StrV ''residential'', ''rule'' \<mapsto> StrV ''s0''])]
      \<and> rows separated = []
      \<and> is_bike_lane not_separated = Inr (to_analyze, no_lane)
      \<and> rows to_analyze = []
      \<and> mixed_traffic no_lane = Inr out
      \<and> (\<exists>r'. rows out = [(0, r')]
            \<and> cell r' ''maxspeed_assumed'' = IntV 50 \<and> cell r' ''lanes_assumed'' = IntV 2
            \<and> cell r' ''rule'' = StrV ''m9'' \<and> cell r' ''lts'' = IntV 2))"
proof -
  have c: "set [''bicycle'', ''access'', ''highway'', ''footway'', ''lanes'', ''maxspeed'',
                ''motor_vehicle'', ''service''] \<subseteq> set (columns example_residential)"
    by (simp add: example_residential_def)
  have o: "rows example_residential = [(0, [''highway'' \<mapsto> StrV ''residential''])]"
    by (simp add: example_residential_def)
  have h: "cell [''highway'' \<mapsto> StrV ''residential''] ''highway'' = StrV ''residential''"
    by (simp add: cell_def)
  have m: "\<forall>c\<in>set (columns example_residential).
             c \<noteq> ''highway'' \<longrightarrow> is_missing (cell [''highway'' \<mapsto> StrV ''residential''] c)"
    by (simp add: example_residential_def cell_def is_missing_def)
  from residential_scenario [OF c o h m] o show ?thesis
    by (simp only: simp_thms) (elim exE conjE, intro exI conjI; assumption?)
qed

end
